theory Spec2Isabelle
  imports Main "HOL-Library.Sublist"
begin

section \<open>The merge tester of \<^verbatim>\<open>github_merge_tester.py\<close>\<close>

text \<open>
  The class \<^verbatim>\<open>GitHubMergeTesterV2\<close> drives three collaborators: the \<^verbatim>\<open>git\<close>
  command line, the local file system, and the HTTP API of the hosting platform.
  The model keeps every decision the Python code takes and replaces each collaborator
  by an oracle: a function from the actions performed so far to the result of the next
  call. The program is sequential and deterministic, so the n-th call of an oracle may
  answer anything, independently of the earlier answers.

  Every external call is recorded in \<open>trace\<close>; the outcome lines written to the console
  are recorded in \<open>console\<close> (banners and separators are left out).
\<close>

subsection \<open>Results of external calls\<close>

text \<open>
  \<^verbatim>\<open>subprocess.run([...], check=True)\<close>: the standard output when the command exits
  with status 0, an exception otherwise.
\<close>

datatype proc_result = Exited string | ProcFailed

text \<open>
  The body of an HTTP response as the code reads it: \<^verbatim>\<open>response.text\<close> empty, a text on
  which \<^verbatim>\<open>response.json()\<close> raises, or the decoded JSON value.
\<close>

datatype 'a body = Empty | Garbled | Json 'a

text \<open>A call of \<^verbatim>\<open>requests\<close> raises, or returns a response with a status code and a body.\<close>

datatype 'a response = Raised | Response int "'a body"

text \<open>
  The fields of a pull request that the code reads. \<open>mergeable\<close> is \<open>Some True\<close> for the
  JSON value \<^verbatim>\<open>true\<close>, \<open>Some False\<close> for \<^verbatim>\<open>false\<close> and \<open>None\<close> for \<^verbatim>\<open>null\<close>, a
  missing key or any other value (the code tests \<^verbatim>\<open>is True\<close> and \<^verbatim>\<open>is False\<close>).
  \<open>mergeable_state\<close> is \<open>None\<close> when the key is missing or \<^verbatim>\<open>null\<close>.
\<close>

record pr_data =
  number :: int
  mergeable :: "bool option"
  mergeable_state :: "string option"
  head_ref :: string
  base_ref :: string

text \<open>The content of the token file, as \<^verbatim>\<open>get_github_token\<close> finds it.\<close>

datatype token_file = Missing | Unreadable | Lines "string list"

subsection \<open>Actions and console lines\<close>

datatype action =
    Git "string list"
  | WriteMarker
  | ExistsMarker
  | RemoveMarker
  | Ask
  | Sleep nat
  | PostPull "string option" string
  | GetPull "string option" int
  | PutMerge "string option" int
  | GetOpenPulls "string option"

datatype message =
    MsgTokenFileMissing
  | MsgTokenReadError
  | MsgRepository "string option"
  | MsgCancelled
  | MsgBranchCreated string
  | MsgBranchError
  | MsgPRCreated "int option"
  | MsgPRCreateFailed int
  | MsgPRError
  | MsgAttempt nat nat "bool option" "string option"
  | MsgReady
  | MsgConflicts
  | MsgStillProcessing
  | MsgOtherState "string option"
  | MsgCheckError
  | MsgTimeout
  | MsgStatusCode int
  | MsgMergeWorked
  | MsgMergeFailed
  | MsgMergeError
  | MsgCleanupDone
  | MsgCleanupError
  | MsgFoundConflicted nat
  | MsgTestingResolution int string string
  | MsgNoConflicts
  | MsgSurveyError
  | MsgResultWorks
  | MsgResultMergeProblem
  | MsgResultUnexpectedConflicts
  | MsgConclusions

subsection \<open>The environment and the state\<close>

text \<open>
  Each oracle takes the trace at the moment of the call. \<open>now\<close> is the
  \<^verbatim>\<open>%H%M%S\<close> timestamp that names the test branch.
\<close>

record env =
  token_file_read :: token_file
  git_run :: "action list \<Rightarrow> string list \<Rightarrow> proc_result"
  write_marker :: "action list \<Rightarrow> bool"
  exists_marker :: "action list \<Rightarrow> bool"
  remove_marker :: "action list \<Rightarrow> bool"
  confirm :: "action list \<Rightarrow> bool"
  now :: string
  http_post_pull :: "action list \<Rightarrow> string option \<Rightarrow> string \<Rightarrow> (int option) response"
  http_get_pull :: "action list \<Rightarrow> string option \<Rightarrow> int \<Rightarrow> pr_data response"
  http_put_merge :: "action list \<Rightarrow> string option \<Rightarrow> int \<Rightarrow> unit response"
  http_get_open :: "action list \<Rightarrow> string option \<Rightarrow> (int list) response"

text \<open>
  \<open>token\<close> and \<open>repo_name\<close> are the attributes of the tester object
  (\<^verbatim>\<open>self.headers\<close> is a function of the token). \<open>head\<close> is the branch checked out in
  the working copy.
\<close>

record state =
  token :: "string option"
  repo_name :: "string option"
  head :: string
  trace :: "action list"
  console :: "message list"

definition act :: "action \<Rightarrow> state \<Rightarrow> state" where
  "act a s = s\<lparr>trace := trace s @ [a]\<rparr>"

definition say :: "message \<Rightarrow> state \<Rightarrow> state" where
  "say m s = s\<lparr>console := console s @ [m]\<rparr>"

subsection \<open>\<^verbatim>\<open>check_pr_mergeable_status\<close>\<close>

definition max_attempts :: nat where
  "max_attempts = 5"

text \<open>
  The body of \<^verbatim>\<open>for attempt in range(max_attempts)\<close>, by recursion on the attempts
  left. The empty list is the exit of the loop (the lines after it). A \<^verbatim>\<open>continue\<close>
  is the recursive call; every other path returns.
\<close>

fun poll_attempts :: "env \<Rightarrow> int \<Rightarrow> nat list \<Rightarrow> state \<Rightarrow> (bool \<times> pr_data option) \<times> state" where
  "poll_attempts e pr [] s = ((False, None), say MsgTimeout s)"
| "poll_attempts e pr (attempt # rest) s =
     (case http_get_pull e (trace s) (repo_name s) pr of
        Raised \<Rightarrow> ((False, None), say MsgCheckError (act (GetPull (repo_name s) pr) s))
      | Response code b \<Rightarrow>
          if code = 200 then
            (case b of
               Json d \<Rightarrow>
                 if mergeable d = Some True \<and> mergeable_state d = Some ''clean'' then
                   ((True, Some d),
                    say MsgReady
                      (say (MsgAttempt (attempt + 1) max_attempts (mergeable d) (mergeable_state d))
                        (act (GetPull (repo_name s) pr) s)))
                 else if mergeable d = Some False \<and> mergeable_state d = Some ''dirty'' then
                   ((False, Some d),
                    say MsgConflicts
                      (say (MsgAttempt (attempt + 1) max_attempts (mergeable d) (mergeable_state d))
                        (act (GetPull (repo_name s) pr) s)))
                 else if mergeable_state d = Some ''unknown'' then
                   (if attempt < max_attempts - 1 then
                      poll_attempts e pr rest
                        (act (Sleep 3)
                          (say MsgStillProcessing
                            (say (MsgAttempt (attempt + 1) max_attempts (mergeable d) (mergeable_state d))
                              (act (GetPull (repo_name s) pr) s))))
                    else
                      ((False, None),
                       say MsgStillProcessing
                         (say (MsgAttempt (attempt + 1) max_attempts (mergeable d) (mergeable_state d))
                           (act (GetPull (repo_name s) pr) s))))
                 else
                   ((False, Some d),
                    say (MsgOtherState (mergeable_state d))
                      (say (MsgAttempt (attempt + 1) max_attempts (mergeable d) (mergeable_state d))
                        (act (GetPull (repo_name s) pr) s)))
             | _ \<Rightarrow> ((False, None), say MsgCheckError (act (GetPull (repo_name s) pr) s)))
          else ((False, None), act (GetPull (repo_name s) pr) s))"

definition check_pr_mergeable_status :: "env \<Rightarrow> int \<Rightarrow> state \<Rightarrow> (bool \<times> pr_data option) \<times> state" where
  "check_pr_mergeable_status e pr s = poll_attempts e pr [0..<max_attempts] s"

subsection \<open>\<^verbatim>\<open>get_github_token\<close>\<close>

text \<open>
  \<^verbatim>\<open>str.strip()\<close> removes white space at both ends. Characters are bytes here, so only
  the ASCII white space of Python is modelled: codes 9 to 13, 28 to 31 and 32.
\<close>

definition is_space :: "char \<Rightarrow> bool" where
  "is_space c = (of_char c \<in> {9, 10, 11, 12, 13, 28, 29, 30, 31, 32 :: nat})"

definition strip :: "string \<Rightarrow> string" where
  "strip s = rev (dropWhile is_space (rev (dropWhile is_space s)))"

text \<open>
  The loop over the lines of the token file: the first line with an \<^verbatim>\<open>=\<close> gives what
  follows its first \<^verbatim>\<open>=\<close>, the first other non-empty line gives itself.
\<close>

fun first_token :: "string list \<Rightarrow> string option" where
  "first_token [] = None"
| "first_token (l # ls) =
     (if CHR ''='' \<in> set (strip l) then Some (tl (dropWhile (\<lambda>c. c \<noteq> CHR ''='') (strip l)))
      else if strip l \<noteq> [] then Some (strip l)
      else first_token ls)"

definition get_github_token :: "env \<Rightarrow> state \<Rightarrow> bool \<times> state" where
  "get_github_token e s =
     (case token_file_read e of
        Missing \<Rightarrow> (False, say MsgTokenFileMissing s)
      | Unreadable \<Rightarrow> (False, say MsgTokenReadError s)
      | Lines ls \<Rightarrow>
          (case first_token ls of
             None \<Rightarrow> (token s \<noteq> None \<and> token s \<noteq> Some [], s)
           | Some t \<Rightarrow> (t \<noteq> [], s\<lparr>token := Some t\<rparr>)))"

subsection \<open>\<^verbatim>\<open>get_repo_name\<close>\<close>

text \<open>
  \<^verbatim>\<open>re.search(r'[:/]([^/]+/[^.]+)(?:\.git)?$', url)\<close>, as the backtracking matcher
  runs it. \<open>plus_candidates P s\<close> lists what a greedy \<^verbatim>\<open>[...]+\<close> may consume at the
  head of \<open>s\<close>, longest first. \<open>at_end\<close> is \<^verbatim>\<open>$\<close>: the end of the string, or the
  position before a final newline.
\<close>

definition plus_candidates :: "(char \<Rightarrow> bool) \<Rightarrow> string \<Rightarrow> string list" where
  "plus_candidates P s = rev (tl (prefixes (takeWhile P s)))"

fun first_match :: "('a \<Rightarrow> 'b option) \<Rightarrow> 'a list \<Rightarrow> 'b option" where
  "first_match f [] = None"
| "first_match f (x # xs) = (case f x of Some y \<Rightarrow> Some y | None \<Rightarrow> first_match f xs)"

definition at_end :: "string \<Rightarrow> bool" where
  "at_end t = (t = [] \<or> t = [CHR 0x0A])"

text \<open>\<^verbatim>\<open>(?:\.git)?$\<close>: the optional group is tried first.\<close>

definition opt_git_end :: "string \<Rightarrow> bool" where
  "opt_git_end t = ((take 4 t = ''.git'' \<and> at_end (drop 4 t)) \<or> at_end t)"

text \<open>\<^verbatim>\<open>[^.]+(?:\.git)?$\<close> at the head of \<open>r\<close>: what \<^verbatim>\<open>[^.]+\<close> consumed.\<close>

definition match_name :: "string \<Rightarrow> string option" where
  "match_name r =
     first_match (\<lambda>b. if opt_git_end (drop (length b) r) then Some b else None)
       (plus_candidates (\<lambda>c. c \<noteq> CHR ''.'') r)"

text \<open>The whole pattern at the head of \<open>s\<close>: the text of group 1.\<close>

definition match_at :: "string \<Rightarrow> string option" where
  "match_at s =
     (case s of
        [] \<Rightarrow> None
      | c # rest \<Rightarrow>
          if c = CHR '':'' \<or> c = CHR ''/'' then
            first_match
              (\<lambda>a. case drop (length a) rest of
                     [] \<Rightarrow> None
                   | x # r \<Rightarrow>
                       if x = CHR ''/'' then map_option (\<lambda>b. a @ ''/'' @ b) (match_name r)
                       else None)
              (plus_candidates (\<lambda>c. c \<noteq> CHR ''/'') rest)
          else None)"

text \<open>\<^verbatim>\<open>re.search\<close>: the match at the leftmost position that has one.\<close>

fun repo_search :: "string \<Rightarrow> string option" where
  "repo_search [] = match_at []"
| "repo_search (c # cs) =
     (case match_at (c # cs) of Some g \<Rightarrow> Some g | None \<Rightarrow> repo_search cs)"

definition get_repo_name :: "env \<Rightarrow> state \<Rightarrow> bool \<times> state" where
  "get_repo_name e s =
     (case git_run e (trace s) [''git'', ''config'', ''--get'', ''remote.origin.url''] of
        ProcFailed \<Rightarrow>
          (False, act (Git [''git'', ''config'', ''--get'', ''remote.origin.url'']) s)
      | Exited out \<Rightarrow>
          (case repo_search (strip out) of
             Some g \<Rightarrow>
               (True,
                (act (Git [''git'', ''config'', ''--get'', ''remote.origin.url'']) s)
                  \<lparr>repo_name := Some g\<rparr>)
           | None \<Rightarrow>
               (False, act (Git [''git'', ''config'', ''--get'', ''remote.origin.url'']) s)))"

subsection \<open>Statements of a \<^verbatim>\<open>try\<close> block\<close>

text \<open>
  The \<^verbatim>\<open>try\<close> blocks of \<^verbatim>\<open>create_clean_test_branch\<close> and \<^verbatim>\<open>cleanup_test_branch\<close>
  are sequences of calls, each of which may raise; the first one that raises leaves the
  block. A successful \<^verbatim>\<open>git checkout <branch>\<close> or \<^verbatim>\<open>git checkout -b <branch>\<close>
  moves the working copy to that branch; a failed command leaves it where it was.
\<close>

datatype step = RunGit "string list" | WriteMarkerFile | RemoveMarkerIfExists

definition git_effect :: "string list \<Rightarrow> state \<Rightarrow> state" where
  "git_effect argv s =
     (case argv of
        [g, c, b] \<Rightarrow> if g = ''git'' \<and> c = ''checkout'' then s\<lparr>head := b\<rparr> else s
      | [g, c, opt, b] \<Rightarrow>
          if g = ''git'' \<and> c = ''checkout'' \<and> opt = ''-b'' then s\<lparr>head := b\<rparr> else s
      | _ \<Rightarrow> s)"

definition run_git :: "env \<Rightarrow> string list \<Rightarrow> state \<Rightarrow> bool \<times> state" where
  "run_git e argv s =
     (case git_run e (trace s) argv of
        Exited out \<Rightarrow> (True, git_effect argv (act (Git argv) s))
      | ProcFailed \<Rightarrow> (False, act (Git argv) s))"

text \<open>The result is \<open>True\<close> when the statement completed, \<open>False\<close> when it raised.\<close>

fun do_step :: "env \<Rightarrow> step \<Rightarrow> state \<Rightarrow> bool \<times> state" where
  "do_step e (RunGit argv) s = run_git e argv s"
| "do_step e WriteMarkerFile s = (write_marker e (trace s), act WriteMarker s)"
| "do_step e RemoveMarkerIfExists s =
     (if exists_marker e (trace s) then
        (remove_marker e (trace s @ [ExistsMarker]), act RemoveMarker (act ExistsMarker s))
      else (True, act ExistsMarker s))"

fun try_steps :: "env \<Rightarrow> step list \<Rightarrow> state \<Rightarrow> bool \<times> state" where
  "try_steps e [] s = (True, s)"
| "try_steps e (x # xs) s =
     (case do_step e x s of
        (ok, s') \<Rightarrow> if ok then try_steps e xs s' else (False, s'))"

subsection \<open>\<^verbatim>\<open>create_clean_test_branch\<close>\<close>

definition marker_file :: string where
  "marker_file = ''test_merge_file.txt''"

text \<open>The commit message; the accented letter is written as its two UTF-8 bytes.\<close>

definition commit_message :: "string \<Rightarrow> string" where
  "commit_message timestamp =
     ''Teste: arquivo para merge autom'' @ [CHR 0xC3, CHR 0xA1] @ ''tico - '' @ timestamp"

definition provision_steps :: "string \<Rightarrow> string \<Rightarrow> step list" where
  "provision_steps timestamp test_branch =
     [RunGit [''git'', ''checkout'', ''main''],
      RunGit [''git'', ''pull'', ''origin'', ''main''],
      RunGit [''git'', ''checkout'', ''-b'', test_branch],
      WriteMarkerFile,
      RunGit [''git'', ''add'', marker_file],
      RunGit [''git'', ''commit'', ''-m'', commit_message timestamp],
      RunGit [''git'', ''push'', ''origin'', test_branch]]"

definition create_clean_test_branch :: "env \<Rightarrow> state \<Rightarrow> string option \<times> state" where
  "create_clean_test_branch e s =
     (case try_steps e (provision_steps (now e) (''test-merge-clean-'' @ now e)) s of
        (ok, s') \<Rightarrow>
          if ok then
            (Some (''test-merge-clean-'' @ now e),
             say (MsgBranchCreated (''test-merge-clean-'' @ now e)) s')
          else (None, say MsgBranchError s'))"

subsection \<open>\<^verbatim>\<open>create_test_pr_clean\<close>\<close>

text \<open>
  The decoded body of the creation response is the value of \<^verbatim>\<open>pr_info.get('number')\<close>.
  The function returns the pair of the number and \<^verbatim>\<open>pr_info\<close>; the caller reads the
  number only, which is what the model returns.
\<close>

definition create_test_pr_clean :: "env \<Rightarrow> string \<Rightarrow> state \<Rightarrow> int option \<times> state" where
  "create_test_pr_clean e source_branch s =
     (case http_post_pull e (trace s) (repo_name s) source_branch of
        Raised \<Rightarrow> (None, say MsgPRError (act (PostPull (repo_name s) source_branch) s))
      | Response code b \<Rightarrow>
          if code = 200 \<or> code = 201 then
            (case b of
               Json num \<Rightarrow>
                 (num,
                  act (Sleep 2)
                    (say (MsgPRCreated num) (act (PostPull (repo_name s) source_branch) s)))
             | _ \<Rightarrow> (None, say MsgPRError (act (PostPull (repo_name s) source_branch) s)))
          else
            (None, say (MsgPRCreateFailed code) (act (PostPull (repo_name s) source_branch) s)))"

subsection \<open>\<^verbatim>\<open>test_auto_merge_clean\<close>\<close>

definition test_auto_merge_clean :: "env \<Rightarrow> int \<Rightarrow> state \<Rightarrow> bool \<times> state" where
  "test_auto_merge_clean e pr s =
     (case http_put_merge e (trace s) (repo_name s) pr of
        Raised \<Rightarrow> (False, say MsgMergeError (act (PutMerge (repo_name s) pr) s))
      | Response code b \<Rightarrow>
          if code = 200 then
            (case b of
               Json u \<Rightarrow>
                 (True,
                  say MsgMergeWorked
                    (say (MsgStatusCode code) (act (PutMerge (repo_name s) pr) s)))
             | _ \<Rightarrow>
                 (False,
                  say MsgMergeError
                    (say (MsgStatusCode code) (act (PutMerge (repo_name s) pr) s))))
          else
            (case b of
               Garbled \<Rightarrow>
                 (False,
                  say MsgMergeError
                    (say (MsgStatusCode code) (act (PutMerge (repo_name s) pr) s)))
             | _ \<Rightarrow>
                 (False,
                  say MsgMergeFailed
                    (say (MsgStatusCode code) (act (PutMerge (repo_name s) pr) s)))))"

subsection \<open>\<^verbatim>\<open>cleanup_test_branch\<close>\<close>

definition cleanup_steps :: "string \<Rightarrow> step list" where
  "cleanup_steps branch_name =
     [RunGit [''git'', ''checkout'', ''main''],
      RunGit [''git'', ''branch'', ''-D'', branch_name],
      RunGit [''git'', ''push'', ''origin'', ''--delete'', branch_name],
      RemoveMarkerIfExists]"

definition cleanup_test_branch :: "env \<Rightarrow> string \<Rightarrow> state \<Rightarrow> state" where
  "cleanup_test_branch e branch_name s =
     (case try_steps e (cleanup_steps branch_name) s of
        (ok, s') \<Rightarrow> if ok then say MsgCleanupDone s' else say MsgCleanupError s')"

subsection \<open>\<^verbatim>\<open>test_conflict_resolution_strategy\<close>\<close>

text \<open>
  The loop over the open pull requests (each summary is represented by its number).
  The result is \<open>None\<close> when a statement of the loop raised, which the handler around
  the whole function catches; otherwise it is the list \<^verbatim>\<open>conflicted_prs\<close>.
\<close>

fun survey_loop :: "env \<Rightarrow> int list \<Rightarrow> pr_data list \<Rightarrow> state \<Rightarrow> pr_data list option \<times> state" where
  "survey_loop e [] conflicted_prs s = (Some conflicted_prs, s)"
| "survey_loop e (n # rest) conflicted_prs s =
     (case http_get_pull e (trace s) (repo_name s) n of
        Raised \<Rightarrow> (None, act (GetPull (repo_name s) n) s)
      | Response code b \<Rightarrow>
          if code = 200 then
            (case b of
               Json d \<Rightarrow>
                 survey_loop e rest
                   (if mergeable_state d = Some ''dirty'' then conflicted_prs @ [d]
                    else conflicted_prs)
                   (act (GetPull (repo_name s) n) s)
             | _ \<Rightarrow> (None, act (GetPull (repo_name s) n) s))
          else survey_loop e rest conflicted_prs (act (GetPull (repo_name s) n) s))"

definition test_conflict_resolution_strategy :: "env \<Rightarrow> state \<Rightarrow> state" where
  "test_conflict_resolution_strategy e s =
     (case http_get_open e (trace s) (repo_name s) of
        Raised \<Rightarrow> say MsgSurveyError (act (GetOpenPulls (repo_name s)) s)
      | Response code b \<Rightarrow>
          if code = 200 then
            (case b of
               Json open_prs \<Rightarrow>
                 (case survey_loop e open_prs [] (act (GetOpenPulls (repo_name s)) s) of
                    (None, s') \<Rightarrow> say MsgSurveyError s'
                  | (Some [], s') \<Rightarrow> say MsgNoConflicts s'
                  | (Some (d # ds), s') \<Rightarrow>
                      say (MsgTestingResolution (number d) (head_ref d) (base_ref d))
                        (say (MsgFoundConflicted (length (d # ds))) s'))
             | _ \<Rightarrow> say MsgSurveyError (act (GetOpenPulls (repo_name s)) s))
          else act (GetOpenPulls (repo_name s)) s)"

subsection \<open>\<^verbatim>\<open>run_full_test\<close> and \<^verbatim>\<open>main\<close>\<close>

text \<open>
  The run ends by returning or by the exception of Python for a local variable read
  before any assignment. \<open>frame\<close> holds the local variables of \<^verbatim>\<open>run_full_test\<close> when
  it ends; \<open>None\<close> is a variable that was never assigned.
\<close>

datatype exit = Returned | UnboundLocalError

record frame =
  test_branch :: "string option"
  pr_number :: "int option"
  is_mergeable :: "bool option"
  merge_success :: "bool option"

definition unbound :: frame where
  "unbound = \<lparr>test_branch = None, pr_number = None, is_mergeable = None, merge_success = None\<rparr>"

text \<open>
  Lines 346 to 360: the test of \<^verbatim>\<open>merge_success\<close>, the cleanup, the survey and the
  conclusions. Reading \<^verbatim>\<open>merge_success\<close> when it was never assigned raises.
\<close>

definition finish :: "env \<Rightarrow> string \<Rightarrow> bool option \<Rightarrow> state \<Rightarrow> exit \<times> state" where
  "finish e tb ms s =
     (case ms of
        None \<Rightarrow> (UnboundLocalError, s)
      | Some m \<Rightarrow>
          (Returned,
           say MsgConclusions
             (test_conflict_resolution_strategy e
               (if \<not> m then cleanup_test_branch e tb s else s))))"

text \<open>Lines 333 to 360, for a created pull request.\<close>

definition poll_and_merge :: "env \<Rightarrow> string \<Rightarrow> int \<Rightarrow> state \<Rightarrow> (exit \<times> frame) \<times> state" where
  "poll_and_merge e tb n s =
     (case check_pr_mergeable_status e n s of
        ((mergeable_now, d), s1) \<Rightarrow>
          if mergeable_now then
            (case test_auto_merge_clean e n s1 of
               (m, s2) \<Rightarrow>
                 (case finish e tb (Some m)
                         (say (if m then MsgResultWorks else MsgResultMergeProblem) s2) of
                    (x, s3) \<Rightarrow>
                      ((x, \<lparr>test_branch = Some tb, pr_number = Some n,
                            is_mergeable = Some True, merge_success = Some m\<rparr>), s3)))
          else
            (case finish e tb None (say MsgResultUnexpectedConflicts s1) of
               (x, s3) \<Rightarrow>
                 ((x, \<lparr>test_branch = Some tb, pr_number = Some n,
                       is_mergeable = Some False, merge_success = None\<rparr>), s3)))"

text \<open>Lines 324 to 331, then the above. \<^verbatim>\<open>not pr_number\<close> holds for \<^verbatim>\<open>None\<close> and for 0.\<close>

definition provision_and_test :: "env \<Rightarrow> state \<Rightarrow> (exit \<times> frame) \<times> state" where
  "provision_and_test e s =
     (case create_clean_test_branch e s of
        (None, s1) \<Rightarrow> ((Returned, unbound), s1)
      | (Some tb, s1) \<Rightarrow>
          (case create_test_pr_clean e tb s1 of
             (None, s2) \<Rightarrow>
               ((Returned, unbound\<lparr>test_branch := Some tb\<rparr>), cleanup_test_branch e tb s2)
           | (Some n, s2) \<Rightarrow>
               if n = 0 then
                 ((Returned, unbound\<lparr>test_branch := Some tb, pr_number := Some n\<rparr>),
                  cleanup_test_branch e tb s2)
               else poll_and_merge e tb n s2))"

definition run_full_test :: "env \<Rightarrow> state \<Rightarrow> (exit \<times> frame) \<times> state" where
  "run_full_test e s =
     (case get_github_token e s of
        (have_token, s1) \<Rightarrow>
          if \<not> have_token then ((Returned, unbound), s1)
          else
            (case get_repo_name e s1 of
               (have_repo, s2) \<Rightarrow>
                 if \<not> have_repo then ((Returned, unbound), s2)
                 else if \<not> confirm e (trace s2) then
                   ((Returned, unbound),
                    say MsgCancelled (act Ask (say (MsgRepository (repo_name s2)) s2)))
                 else provision_and_test e (act Ask (say (MsgRepository (repo_name s2)) s2))))"

text \<open>
  \<^verbatim>\<open>main\<close>: a fresh tester (\<^verbatim>\<open>__init__\<close>) runs the full test. The parameter is the
  branch checked out when the tool starts.
\<close>

definition init_tester :: "string \<Rightarrow> state" where
  "init_tester start =
     \<lparr>token = None, repo_name = None, head = start, trace = [], console = []\<rparr>"

definition main :: "env \<Rightarrow> string \<Rightarrow> (exit \<times> frame) \<times> state" where
  "main e start = run_full_test e (init_tester start)"

subsection \<open>Accessors and predicates used in the statements\<close>

definition exit_of :: "(exit \<times> frame) \<times> state \<Rightarrow> exit" where
  "exit_of r = fst (fst r)"

definition frame_of :: "(exit \<times> frame) \<times> state \<Rightarrow> frame" where
  "frame_of r = snd (fst r)"

definition state_of :: "(exit \<times> frame) \<times> state \<Rightarrow> state" where
  "state_of r = snd r"

definition is_merge_call :: "action \<Rightarrow> bool" where
  "is_merge_call a = (case a of PutMerge r n \<Rightarrow> True | _ \<Rightarrow> False)"

definition merge_calls :: "action list \<Rightarrow> action list" where
  "merge_calls t = filter is_merge_call t"

definition is_other_state :: "message \<Rightarrow> bool" where
  "is_other_state m = (case m of MsgOtherState st \<Rightarrow> True | _ \<Rightarrow> False)"

definition other_reports :: "message list \<Rightarrow> message list" where
  "other_reports c = filter is_other_state c"

text \<open>An observation whose \<^verbatim>\<open>mergeable_state\<close> is \<^verbatim>\<open>unknown\<close>, from a response with status 200.\<close>

definition is_unknown :: "pr_data response \<Rightarrow> bool" where
  "is_unknown r =
     (case r of
        Response code (Json d) \<Rightarrow> code = 200 \<and> mergeable_state d = Some ''unknown''
      | _ \<Rightarrow> False)"




subsection \<open>Sample environments\<close>

definition clean_pr :: pr_data where
  "clean_pr = \<lparr>number = 42, mergeable = Some True, mergeable_state = Some ''clean'',
                head_ref = ''test-merge-clean-120000'', base_ref = ''main''\<rparr>"

definition dirty_pr :: pr_data where
  "dirty_pr = clean_pr\<lparr>mergeable := Some False, mergeable_state := Some ''dirty''\<rparr>"

definition unknown_pr :: pr_data where
  "unknown_pr = clean_pr\<lparr>mergeable := None, mergeable_state := Some ''unknown''\<rparr>"

definition blocked_pr :: pr_data where
  "blocked_pr = clean_pr\<lparr>mergeable := None, mergeable_state := Some ''blocked''\<rparr>"

text \<open>
  Every collaborator succeeds: an SSH remote, a pull request numbered 42 that is clean
  at the first fetch, a merge answered with 200, no open pull request.
\<close>

definition env_ok :: env where
  "env_ok =
     \<lparr>token_file_read = Lines [''org=ghp_x''],
      git_run = (\<lambda>h argv.
         if argv = [''git'', ''config'', ''--get'', ''remote.origin.url'']
         then Exited ''git@github.com:org/repo.git'' else Exited []),
      write_marker = (\<lambda>h. True),
      exists_marker = (\<lambda>h. True),
      remove_marker = (\<lambda>h. True),
      confirm = (\<lambda>h. True),
      now = ''120000'',
      http_post_pull = (\<lambda>h r b. Response 201 (Json (Some 42))),
      http_get_pull = (\<lambda>h r n. Response 200 (Json clean_pr)),
      http_put_merge = (\<lambda>h r n. Response 200 (Json ())),
      http_get_open = (\<lambda>h r. Response 200 (Json []))\<rparr>"

definition env_dirty :: env where
  "env_dirty = env_ok\<lparr>http_get_pull := (\<lambda>h r n. Response 200 (Json dirty_pr))\<rparr>"

definition env_unknown :: env where
  "env_unknown = env_ok\<lparr>http_get_pull := (\<lambda>h r n. Response 200 (Json unknown_pr))\<rparr>"

definition env_blocked :: env where
  "env_blocked = env_ok\<lparr>http_get_pull := (\<lambda>h r n. Response 200 (Json blocked_pr))\<rparr>"

definition env_not_found :: env where
  "env_not_found = env_ok\<lparr>http_get_pull := (\<lambda>h r n. Response 404 Empty)\<rparr>"

text \<open>The merge is refused with status 405.\<close>

definition env_refused :: env where
  "env_refused = env_ok\<lparr>http_put_merge := (\<lambda>h r n. Response 405 (Json ()))\<rparr>"

text \<open>The push of the test branch is rejected; every other command succeeds.\<close>

definition env_push_rejected :: env where
  "env_push_rejected =
     env_ok\<lparr>git_run := (\<lambda>h argv.
        if argv = [''git'', ''config'', ''--get'', ''remote.origin.url'']
        then Exited ''git@github.com:org/repo.git''
        else if take 2 argv = [''git'', ''push''] then ProcFailed else Exited [])\<rparr>"

text \<open>The local branch cannot be deleted; every other command succeeds.\<close>

definition env_branch_kept :: env where
  "env_branch_kept =
     env_ok\<lparr>git_run := (\<lambda>h argv.
        if take 2 argv = [''git'', ''branch''] then ProcFailed else Exited [])\<rparr>"

text \<open>The remote is a repository whose name has a dot.\<close>

definition env_dotted :: env where
  "env_dotted =
     env_ok\<lparr>git_run := (\<lambda>h argv. Exited (''git@github.com:org/repo.js'' @ [CHR 0x0A]))\<rparr>"


text \<open>A tester that has resolved its token and repository and has done nothing else.\<close>

definition ready_state :: state where
  "ready_state = \<lparr>token = Some ''ghp_x'', repo_name = Some ''org/repo'', head = ''main'',
                   trace = [], console = []\<rparr>"

section \<open>Properties\<close>

subsection \<open>Evaluation and field lemmas\<close>

lemma range_max_attempts: "[0..<max_attempts] = [0, 1, 2, 3, 4]"
  by (simp add: max_attempts_def upt_rec)

lemma upt_5: "[0..<5] = [0, 1, 2, 3, 4 :: nat]"
  by (simp add: upt_rec)

lemmas run_defs = max_attempts_def upt_5
  main_def init_tester_def run_full_test_def get_github_token_def get_repo_name_def provision_and_test_def
  create_clean_test_branch_def provision_steps_def run_git_def git_effect_def
  create_test_pr_clean_def poll_and_merge_def check_pr_mergeable_status_def
  test_auto_merge_clean_def finish_def test_conflict_resolution_strategy_def
  cleanup_test_branch_def cleanup_steps_def act_def say_def strip_def is_space_def match_at_def
  match_name_def plus_candidates_def opt_git_end_def at_end_def marker_file_def
  commit_message_def unbound_def exit_of_def frame_of_def state_of_def

lemmas sample_defs = env_ok_def clean_pr_def

lemma act_fields [simp]:
  "trace (act a s) = trace s @ [a]" "console (act a s) = console s" "head (act a s) = head s"
  "repo_name (act a s) = repo_name s" "token (act a s) = token s"
  by (simp_all add: act_def)

lemma say_fields [simp]:
  "trace (say m s) = trace s" "console (say m s) = console s @ [m]" "head (say m s) = head s"
  "repo_name (say m s) = repo_name s" "token (say m s) = token s"
  by (simp_all add: say_def)

lemma git_effect_fields [simp]:
  "trace (git_effect argv s) = trace s" "console (git_effect argv s) = console s"
  "repo_name (git_effect argv s) = repo_name s" "token (git_effect argv s) = token s"
  by (simp_all add: git_effect_def split: list.splits)

lemma merge_calls_simps [simp]:
  "merge_calls [] = []"
  "merge_calls (a # t) = (if is_merge_call a then a # merge_calls t else merge_calls t)"
  "merge_calls (t @ u) = merge_calls t @ merge_calls u"
  by (simp_all add: merge_calls_def)

lemma is_merge_call_simps [simp]:
  "is_merge_call (PutMerge r n)" "\<not> is_merge_call (Git argv)" "\<not> is_merge_call WriteMarker"
  "\<not> is_merge_call ExistsMarker" "\<not> is_merge_call RemoveMarker" "\<not> is_merge_call Ask"
  "\<not> is_merge_call (Sleep k)" "\<not> is_merge_call (PostPull r b)" "\<not> is_merge_call (GetPull r n)"
  "\<not> is_merge_call (GetOpenPulls r)"
  by (simp_all add: is_merge_call_def)

lemma other_reports_simps [simp]:
  "other_reports [] = []"
  "other_reports (m # c) = (if is_other_state m then m # other_reports c else other_reports c)"
  "other_reports (c @ c') = other_reports c @ other_reports c'"
  by (simp_all add: other_reports_def)

lemma is_other_state_simps [simp]:
  "is_other_state (MsgOtherState st)"
  "\<not> is_other_state MsgTokenFileMissing" "\<not> is_other_state MsgTokenReadError"
  "\<not> is_other_state (MsgRepository r)" "\<not> is_other_state MsgCancelled"
  "\<not> is_other_state (MsgBranchCreated b)" "\<not> is_other_state MsgBranchError"
  "\<not> is_other_state (MsgPRCreated no)" "\<not> is_other_state (MsgPRCreateFailed c)"
  "\<not> is_other_state MsgPRError" "\<not> is_other_state (MsgAttempt i j x y)"
  "\<not> is_other_state MsgReady" "\<not> is_other_state MsgConflicts"
  "\<not> is_other_state MsgStillProcessing" "\<not> is_other_state MsgCheckError"
  "\<not> is_other_state MsgTimeout" "\<not> is_other_state (MsgStatusCode c)"
  "\<not> is_other_state MsgMergeWorked" "\<not> is_other_state MsgMergeFailed"
  "\<not> is_other_state MsgMergeError" "\<not> is_other_state MsgCleanupDone"
  "\<not> is_other_state MsgCleanupError" "\<not> is_other_state (MsgFoundConflicted k)"
  "\<not> is_other_state (MsgTestingResolution pn h b')" "\<not> is_other_state MsgNoConflicts"
  "\<not> is_other_state MsgSurveyError" "\<not> is_other_state MsgResultWorks"
  "\<not> is_other_state MsgResultMergeProblem" "\<not> is_other_state MsgResultUnexpectedConflicts"
  "\<not> is_other_state MsgConclusions"
  by (simp_all add: is_other_state_def)

subsection \<open>What each function leaves unchanged\<close>

lemma do_step_frame:
  "console (snd (do_step e x s)) = console s \<and> repo_name (snd (do_step e x s)) = repo_name s
   \<and> merge_calls (trace (snd (do_step e x s))) = merge_calls (trace s)"
  by (cases x) (simp_all add: run_git_def split: proc_result.splits)

lemma try_steps_frame:
  "console (snd (try_steps e xs s)) = console s \<and> repo_name (snd (try_steps e xs s)) = repo_name s
   \<and> merge_calls (trace (snd (try_steps e xs s))) = merge_calls (trace s)"
proof (induction xs arbitrary: s)
  case Nil
  show ?case by simp
next
  case (Cons x xs)
  obtain ok s' where d: "do_step e x s = (ok, s')" by (cases "do_step e x s")
  with do_step_frame [of e x s] Cons.IH [of s'] show ?case by simp
qed

lemma poll_frame:
  "repo_name (snd (poll_attempts e pr as s)) = repo_name s
   \<and> head (snd (poll_attempts e pr as s)) = head s
   \<and> merge_calls (trace (snd (poll_attempts e pr as s))) = merge_calls (trace s)"
proof (induction as arbitrary: s)
  case Nil
  show ?case by simp
next
  case (Cons a as)
  show ?case
    by (simp add: Cons.IH split: response.splits body.splits)
qed

lemma poll_success_quiet:
  "fst (fst (poll_attempts e pr as s))
     \<longrightarrow> other_reports (console (snd (poll_attempts e pr as s))) = other_reports (console s)"
proof (induction as arbitrary: s)
  case Nil
  then show ?case by simp
next
  case (Cons a as)
  show ?case
    by (simp add: Cons.IH split: response.splits body.splits)
qed

lemma poll_success_is_clean:
  "fst (fst (poll_attempts e pr as s)) \<longleftrightarrow>
     (\<exists>d. snd (fst (poll_attempts e pr as s)) = Some d
          \<and> mergeable d = Some True \<and> mergeable_state d = Some ''clean'')"
proof (induction as arbitrary: s)
  case Nil
  show ?case by simp
next
  case (Cons a as)
  show ?case
    by (auto simp: Cons.IH split: response.splits body.splits)
qed

lemma survey_loop_frame:
  "repo_name (snd (survey_loop e ns acc s)) = repo_name s
   \<and> head (snd (survey_loop e ns acc s)) = head s
   \<and> console (snd (survey_loop e ns acc s)) = console s
   \<and> merge_calls (trace (snd (survey_loop e ns acc s))) = merge_calls (trace s)"
proof (induction ns arbitrary: s acc)
  case Nil
  show ?case by simp
next
  case (Cons n ns)
  show ?case
    by (simp add: Cons.IH split: response.splits body.splits)
qed

lemma survey_frame:
  "repo_name (test_conflict_resolution_strategy e s) = repo_name s
   \<and> head (test_conflict_resolution_strategy e s) = head s
   \<and> merge_calls (trace (test_conflict_resolution_strategy e s)) = merge_calls (trace s)
   \<and> other_reports (console (test_conflict_resolution_strategy e s)) = other_reports (console s)"
proof -
  have "\<And>ns. repo_name (snd (survey_loop e ns [] (act (GetOpenPulls (repo_name s)) s))) = repo_name s
     \<and> head (snd (survey_loop e ns [] (act (GetOpenPulls (repo_name s)) s))) = head s
     \<and> console (snd (survey_loop e ns [] (act (GetOpenPulls (repo_name s)) s))) = console s
     \<and> merge_calls (trace (snd (survey_loop e ns [] (act (GetOpenPulls (repo_name s)) s))))
         = merge_calls (trace s)"
    by (simp add: survey_loop_frame)
  then show ?thesis
    by (simp add: test_conflict_resolution_strategy_def split_beta
        split: response.splits body.splits option.splits list.splits)
qed

lemma cleanup_frame:
  "merge_calls (trace (cleanup_test_branch e b s)) = merge_calls (trace s)
   \<and> other_reports (console (cleanup_test_branch e b s)) = other_reports (console s)
   \<and> repo_name (cleanup_test_branch e b s) = repo_name s"
  using try_steps_frame [of e "cleanup_steps b" s]
  by (simp add: cleanup_test_branch_def split_beta)

lemma provision_frame:
  "merge_calls (trace (snd (create_clean_test_branch e s))) = merge_calls (trace s)
   \<and> other_reports (console (snd (create_clean_test_branch e s))) = other_reports (console s)
   \<and> repo_name (snd (create_clean_test_branch e s)) = repo_name s"
  using try_steps_frame [of e "provision_steps (now e) (''test-merge-clean-'' @ now e)" s]
  by (simp add: create_clean_test_branch_def split_beta)

lemma create_pr_frame:
  "merge_calls (trace (snd (create_test_pr_clean e b s))) = merge_calls (trace s)
   \<and> other_reports (console (snd (create_test_pr_clean e b s))) = other_reports (console s)
   \<and> repo_name (snd (create_test_pr_clean e b s)) = repo_name s
   \<and> head (snd (create_test_pr_clean e b s)) = head s"
  by (simp add: create_test_pr_clean_def split: response.splits body.splits)

lemma merge_attempt_frame:
  "merge_calls (trace (snd (test_auto_merge_clean e n s))) = merge_calls (trace s) @ [PutMerge (repo_name s) n]
   \<and> other_reports (console (snd (test_auto_merge_clean e n s))) = other_reports (console s)
   \<and> repo_name (snd (test_auto_merge_clean e n s)) = repo_name s
   \<and> head (snd (test_auto_merge_clean e n s)) = head s"
  by (simp add: test_auto_merge_clean_def split: response.splits body.splits)

lemma finish_frame:
  "merge_calls (trace (snd (finish e tb ms s))) = merge_calls (trace s)
   \<and> other_reports (console (snd (finish e tb ms s))) = other_reports (console s)"
  by (simp add: finish_def survey_frame cleanup_frame split: option.splits)

subsection \<open>The merge call and the result of the poll\<close>

lemma poll_and_merge_calls:
  "merge_calls (trace (state_of (poll_and_merge e tb n s))) =
     merge_calls (trace s) @
       (if is_mergeable (frame_of (poll_and_merge e tb n s)) = Some True
        then [PutMerge (repo_name s) n] else [])
   \<and> (is_mergeable (frame_of (poll_and_merge e tb n s)) = Some True
        \<longrightarrow> other_reports (console (state_of (poll_and_merge e tb n s))) = other_reports (console s))"
proof -
  obtain ok d s1 where p: "check_pr_mergeable_status e n s = ((ok, d), s1)"
    by (metis surj_pair)
  have f: "merge_calls (trace s1) = merge_calls (trace s)" "repo_name s1 = repo_name s"
    using poll_frame [of e n "[0..<max_attempts]" s] p
    by (simp_all add: check_pr_mergeable_status_def)
  show ?thesis
  proof (cases ok)
    case True
    obtain m s2 where a: "test_auto_merge_clean e n s1 = (m, s2)" by (metis surj_pair)
    have q: "other_reports (console s1) = other_reports (console s)"
      using poll_success_quiet [of e n "[0..<max_attempts]" s] p True
      by (simp add: check_pr_mergeable_status_def)
    have "merge_calls (trace s2) = merge_calls (trace s) @ [PutMerge (repo_name s) n]"
      "other_reports (console s2) = other_reports (console s)"
      using merge_attempt_frame [of e n s1] a f q by simp_all
    with True p a
      finish_frame [of e tb "Some m" "say (if m then MsgResultWorks else MsgResultMergeProblem) s2"]
    show ?thesis
      by (simp add: poll_and_merge_def state_of_def frame_of_def split_beta)
  next
    case False
    with p f show ?thesis
      by (simp add: poll_and_merge_def state_of_def frame_of_def finish_frame split_beta)
  qed
qed

lemma provision_and_test_calls:
  "length (merge_calls (trace (state_of (provision_and_test e s)))) =
     length (merge_calls (trace s)) +
       (if is_mergeable (frame_of (provision_and_test e s)) = Some True then 1 else 0)
   \<and> (is_mergeable (frame_of (provision_and_test e s)) \<noteq> Some False
        \<longrightarrow> other_reports (console (state_of (provision_and_test e s))) = other_reports (console s))"
proof -
  obtain tbo s1 where c: "create_clean_test_branch e s = (tbo, s1)" by (metis surj_pair)
  have f1: "merge_calls (trace s1) = merge_calls (trace s)"
    "other_reports (console s1) = other_reports (console s)"
    using provision_frame [of e s] c by simp_all
  show ?thesis
  proof (cases tbo)
    case None
    with c f1 show ?thesis
      by (simp add: provision_and_test_def state_of_def frame_of_def unbound_def)
  next
    case (Some tb)
    obtain no s2 where q: "create_test_pr_clean e tb s1 = (no, s2)" by (metis surj_pair)
    have f2: "merge_calls (trace s2) = merge_calls (trace s)"
      "other_reports (console s2) = other_reports (console s)"
      using create_pr_frame [of e tb s1] q f1 by simp_all
    show ?thesis
    proof (cases no)
      case None
      with c Some q f2 show ?thesis
        by (simp add: provision_and_test_def state_of_def frame_of_def unbound_def cleanup_frame)
    next
      case (Some n)
      show ?thesis
      proof (cases "n = 0")
        case True
        with c \<open>tbo = Some tb\<close> Some q f2 show ?thesis
          by (simp add: provision_and_test_def state_of_def frame_of_def unbound_def cleanup_frame)
      next
        case False
        have pm: "provision_and_test e s = poll_and_merge e tb n s2"
          using c \<open>tbo = Some tb\<close> Some q False by (simp add: provision_and_test_def)
        have "is_mergeable (frame_of (poll_and_merge e tb n s2)) = Some True
              \<or> is_mergeable (frame_of (poll_and_merge e tb n s2)) = Some False"
          by (simp add: poll_and_merge_def frame_of_def split_beta)
        then show ?thesis
        proof
          assume "is_mergeable (frame_of (poll_and_merge e tb n s2)) = Some True"
          with poll_and_merge_calls [of e tb n s2] f2 show ?thesis
            by (simp add: pm)
        next
          assume "is_mergeable (frame_of (poll_and_merge e tb n s2)) = Some False"
          with poll_and_merge_calls [of e tb n s2] f2 show ?thesis
            by (simp add: pm)
        qed
      qed
    qed
  qed
qed

lemma run_full_test_calls:
  "length (merge_calls (trace (state_of (run_full_test e s)))) =
     length (merge_calls (trace s)) +
       (if is_mergeable (frame_of (run_full_test e s)) = Some True then 1 else 0)
   \<and> (is_mergeable (frame_of (run_full_test e s)) \<noteq> Some False
        \<longrightarrow> other_reports (console (state_of (run_full_test e s))) = other_reports (console s))"
proof -
  obtain t s1 where g: "get_github_token e s = (t, s1)" by (metis surj_pair)
  have f1: "trace s1 = trace s" "other_reports (console s1) = other_reports (console s)"
    using g by (auto simp: get_github_token_def split: token_file.splits option.splits)
  obtain r s2 where h: "get_repo_name e s1 = (r, s2)" by (metis surj_pair)
  have f2: "merge_calls (trace s2) = merge_calls (trace s)"
    "other_reports (console s2) = other_reports (console s)"
    using h f1 by (auto simp: get_repo_name_def split: proc_result.splits option.splits)
  show ?thesis
    using g h f1 f2
      provision_and_test_calls [of e "act Ask (say (MsgRepository (repo_name s2)) s2)"]
    by (simp add: run_full_test_def state_of_def frame_of_def unbound_def)
qed

text \<open>Three sample runs, evaluated in full: merged, in conflict, merge refused.\<close>

lemma run_env_ok:
  "main env_ok ''main'' =
     ((Returned, \<lparr>test_branch = Some ''test-merge-clean-120000'', pr_number = Some 42,
                   is_mergeable = Some True, merge_success = Some True\<rparr>),
      \<lparr>token = Some ''ghp_x'', repo_name = Some ''org/repo'',
       head = ''test-merge-clean-120000'',
       trace =
         [Git [''git'', ''config'', ''--get'', ''remote.origin.url''], Ask,
          Git [''git'', ''checkout'', ''main''],
          Git [''git'', ''pull'', ''origin'', ''main''],
          Git [''git'', ''checkout'', ''-b'', ''test-merge-clean-120000''],
          WriteMarker, Git [''git'', ''add'', ''test_merge_file.txt''],
          Git [''git'', ''commit'', ''-m'', commit_message ''120000''],
          Git [''git'', ''push'', ''origin'', ''test-merge-clean-120000''],
          PostPull (Some ''org/repo'') ''test-merge-clean-120000'', Sleep 2,
          GetPull (Some ''org/repo'') 42, PutMerge (Some ''org/repo'') 42,
          GetOpenPulls (Some ''org/repo'')],
       console =
         [MsgRepository (Some ''org/repo''),
          MsgBranchCreated ''test-merge-clean-120000'',
          MsgPRCreated (Some 42), MsgAttempt 1 5 (Some True) (Some ''clean''),
          MsgReady, MsgStatusCode 200, MsgMergeWorked, MsgResultWorks,
          MsgNoConflicts, MsgConclusions]\<rparr>)"
  by (simp add: run_defs sample_defs)

lemma run_env_dirty:
  "main env_dirty ''main'' =
     ((UnboundLocalError, \<lparr>test_branch = Some ''test-merge-clean-120000'', pr_number = Some 42,
                   is_mergeable = Some False, merge_success = None\<rparr>),
      \<lparr>token = Some ''ghp_x'', repo_name = Some ''org/repo'',
       head = ''test-merge-clean-120000'',
       trace =
         [Git [''git'', ''config'', ''--get'', ''remote.origin.url''], Ask,
          Git [''git'', ''checkout'', ''main''],
          Git [''git'', ''pull'', ''origin'', ''main''],
          Git [''git'', ''checkout'', ''-b'', ''test-merge-clean-120000''],
          WriteMarker, Git [''git'', ''add'', ''test_merge_file.txt''],
          Git [''git'', ''commit'', ''-m'', commit_message ''120000''],
          Git [''git'', ''push'', ''origin'', ''test-merge-clean-120000''],
          PostPull (Some ''org/repo'') ''test-merge-clean-120000'', Sleep 2,
          GetPull (Some ''org/repo'') 42],
       console =
         [MsgRepository (Some ''org/repo''),
          MsgBranchCreated ''test-merge-clean-120000'',
          MsgPRCreated (Some 42), MsgAttempt 1 5 (Some False) (Some ''dirty''),
          MsgConflicts, MsgResultUnexpectedConflicts]\<rparr>)"
  by (simp add: run_defs sample_defs env_dirty_def dirty_pr_def)

lemma run_env_refused:
  "main env_refused ''main'' =
     ((Returned, \<lparr>test_branch = Some ''test-merge-clean-120000'', pr_number = Some 42,
                   is_mergeable = Some True, merge_success = Some False\<rparr>),
      \<lparr>token = Some ''ghp_x'', repo_name = Some ''org/repo'', head = ''main'',
       trace =
         [Git [''git'', ''config'', ''--get'', ''remote.origin.url''], Ask,
          Git [''git'', ''checkout'', ''main''],
          Git [''git'', ''pull'', ''origin'', ''main''],
          Git [''git'', ''checkout'', ''-b'', ''test-merge-clean-120000''],
          WriteMarker, Git [''git'', ''add'', ''test_merge_file.txt''],
          Git [''git'', ''commit'', ''-m'', commit_message ''120000''],
          Git [''git'', ''push'', ''origin'', ''test-merge-clean-120000''],
          PostPull (Some ''org/repo'') ''test-merge-clean-120000'', Sleep 2,
          GetPull (Some ''org/repo'') 42, PutMerge (Some ''org/repo'') 42,
          Git [''git'', ''checkout'', ''main''],
          Git [''git'', ''branch'', ''-D'', ''test-merge-clean-120000''],
          Git [''git'', ''push'', ''origin'', ''--delete'', ''test-merge-clean-120000''],
          ExistsMarker, RemoveMarker,
          GetOpenPulls (Some ''org/repo'')],
       console =
         [MsgRepository (Some ''org/repo''),
          MsgBranchCreated ''test-merge-clean-120000'',
          MsgPRCreated (Some 42), MsgAttempt 1 5 (Some True) (Some ''clean''),
          MsgReady, MsgStatusCode 405, MsgMergeFailed, MsgResultMergeProblem,
          MsgCleanupDone, MsgNoConflicts, MsgConclusions]\<rparr>)"
  by (simp add: run_defs sample_defs env_refused_def)

text \<open>
  C1. In every run, the merge endpoint is called exactly once when the poll returned its
  success result (\<^verbatim>\<open>is_mergeable\<close> true) and is never called otherwise: neither when
  the poll returned a failure (conflicts, unrecognised state, attempts exhausted, fetch
  failure) nor when the run ended before the poll. The poll returns its success result
  exactly when it returns an observation with mergeable true and state clean.
\<close>

theorem merge_iff_ready_clean:
  "(is_mergeable (frame_of (main e b)) = Some True
      \<longrightarrow> length (filter is_merge_call (trace (state_of (main e b)))) = 1)
   \<and> (is_mergeable (frame_of (main e b)) \<noteq> Some True
      \<longrightarrow> filter is_merge_call (trace (state_of (main e b))) = [])
   \<and> (fst (fst (check_pr_mergeable_status e n s)) \<longleftrightarrow>
        (\<exists>d. snd (fst (check_pr_mergeable_status e n s)) = Some d
             \<and> mergeable d = Some True \<and> mergeable_state d = Some ''clean''))"
proof -
  have "fst (fst (check_pr_mergeable_status e n s)) \<longleftrightarrow>
        (\<exists>d. snd (fst (check_pr_mergeable_status e n s)) = Some d
             \<and> mergeable d = Some True \<and> mergeable_state d = Some ''clean'')"
    unfolding check_pr_mergeable_status_def by (rule poll_success_is_clean)
  then show ?thesis
    using run_full_test_calls
      [of e "init_tester b"]
    by (auto simp: main_def init_tester_def merge_calls_def split: if_splits)
qed

theorem merge_iff_ready_clean_witness:
  "is_mergeable (frame_of (main env_ok ''main'')) = Some True
   \<and> length (filter is_merge_call (trace (state_of (main env_ok ''main'')))) = 1
   \<and> is_mergeable (frame_of (main env_dirty ''main'')) \<noteq> Some True
   \<and> filter is_merge_call (trace (state_of (main env_dirty ''main''))) = []"
  using merge_iff_ready_clean [of env_ok "''main''"] merge_iff_ready_clean [of env_dirty "''main''"]
  by (simp add: run_env_ok run_env_dirty frame_of_def state_of_def)

subsection \<open>The poller\<close>

lemma poll_retry:
  assumes "is_unknown (http_get_pull e (trace s) (repo_name s) pr)" and "a < max_attempts - 1"
  shows "\<exists>s1. poll_attempts e pr (a # rest) s = poll_attempts e pr rest s1
              \<and> trace s1 = trace s @ [GetPull (repo_name s) pr, Sleep 3]
              \<and> repo_name s1 = repo_name s"
  using assms
  by (auto simp: is_unknown_def split: response.splits body.splits)

lemma poll_last_unknown:
  assumes "is_unknown (http_get_pull e (trace s) (repo_name s) pr)" and "\<not> a < max_attempts - 1"
  shows "\<exists>s1. poll_attempts e pr (a # rest) s = ((False, None), s1)
              \<and> trace s1 = trace s @ [GetPull (repo_name s) pr]"
  using assms
  by (auto simp: is_unknown_def split: response.splits body.splits)

text \<open>
  C2. When every fetch returns an observation whose state is \<^verbatim>\<open>unknown\<close>, the poller
  makes exactly five fetches, with a wait of 3 between two of them and none after the
  last, and returns \<^verbatim>\<open>(False, None)\<close>, the value of its timed-out exit.
\<close>

theorem all_unknown_five_fetches:
  assumes unk: "\<forall>h. is_unknown (http_get_pull e h (repo_name s) pr)"
  shows "fst (check_pr_mergeable_status e pr s) = (False, None)
       \<and> trace (snd (check_pr_mergeable_status e pr s)) =
           trace s @ [GetPull (repo_name s) pr, Sleep 3, GetPull (repo_name s) pr, Sleep 3,
                      GetPull (repo_name s) pr, Sleep 3, GetPull (repo_name s) pr, Sleep 3,
                      GetPull (repo_name s) pr]"
proof -
  have u: "\<And>t. repo_name t = repo_name s \<Longrightarrow> is_unknown (http_get_pull e (trace t) (repo_name t) pr)"
    using unk by simp
  obtain s1 where 1: "poll_attempts e pr [0, 1, 2, 3, 4] s = poll_attempts e pr [1, 2, 3, 4] s1"
      "trace s1 = trace s @ [GetPull (repo_name s) pr, Sleep 3]" "repo_name s1 = repo_name s"
    using poll_retry [OF u, of s 0 "[1, 2, 3, 4]"] by (auto simp: max_attempts_def)
  obtain s2 where 2: "poll_attempts e pr [1, 2, 3, 4] s1 = poll_attempts e pr [2, 3, 4] s2"
      "trace s2 = trace s1 @ [GetPull (repo_name s) pr, Sleep 3]" "repo_name s2 = repo_name s"
    using poll_retry [OF u, of s1 1 "[2, 3, 4]"] 1 by (auto simp: max_attempts_def)
  obtain s3 where 3: "poll_attempts e pr [2, 3, 4] s2 = poll_attempts e pr [3, 4] s3"
      "trace s3 = trace s2 @ [GetPull (repo_name s) pr, Sleep 3]" "repo_name s3 = repo_name s"
    using poll_retry [OF u, of s2 2 "[3, 4]"] 2 by (auto simp: max_attempts_def)
  obtain s4 where 4: "poll_attempts e pr [3, 4] s3 = poll_attempts e pr [4] s4"
      "trace s4 = trace s3 @ [GetPull (repo_name s) pr, Sleep 3]" "repo_name s4 = repo_name s"
    using poll_retry [OF u, of s3 3 "[4]"] 3 by (auto simp: max_attempts_def)
  obtain s5 where 5: "poll_attempts e pr [4] s4 = ((False, None), s5)"
      "trace s5 = trace s4 @ [GetPull (repo_name s) pr]"
    using poll_last_unknown [OF u, of s4 4 "[]"] 4 by (auto simp: max_attempts_def)
  have "poll_attempts e pr [0, 1, 2, 3, 4] s = ((False, None), s5)"
    by (simp only: 1(1) 2(1) 3(1) 4(1) 5(1))
  moreover have "trace s5 =
      trace s @ [GetPull (repo_name s) pr, Sleep 3, GetPull (repo_name s) pr, Sleep 3,
                 GetPull (repo_name s) pr, Sleep 3, GetPull (repo_name s) pr, Sleep 3,
                 GetPull (repo_name s) pr]"
    by (simp add: 1(2) 2(2) 3(2) 4(2) 5(2))
  ultimately show ?thesis
    by (simp only: check_pr_mergeable_status_def range_max_attempts fst_conv snd_conv simp_thms)
qed

theorem all_unknown_five_fetches_witness:
  "(\<forall>h. is_unknown (http_get_pull env_unknown h (repo_name ready_state) 42))
   \<and> fst (check_pr_mergeable_status env_unknown 42 ready_state) = (False, None)
   \<and> trace (snd (check_pr_mergeable_status env_unknown 42 ready_state)) =
       [GetPull (Some ''org/repo'') 42, Sleep 3, GetPull (Some ''org/repo'') 42, Sleep 3,
        GetPull (Some ''org/repo'') 42, Sleep 3, GetPull (Some ''org/repo'') 42, Sleep 3,
        GetPull (Some ''org/repo'') 42]"
proof -
  have h: "\<forall>h. is_unknown (http_get_pull env_unknown h (repo_name ready_state) 42)"
    by (simp add: env_unknown_def env_ok_def is_unknown_def unknown_pr_def clean_pr_def)
  show ?thesis
    using h all_unknown_five_fetches [OF h] by (simp add: ready_state_def)
qed

text \<open>
  The lines after the loop of the poller are never reached: the fifth attempt returns on
  every path, so the timeout line is not printed and the value above is returned by the
  statement that also serves the fetch failures.
\<close>

lemma timeout_line_unreachable:
  "MsgTimeout \<in> set (console (snd (check_pr_mergeable_status e pr s)))
     \<longrightarrow> MsgTimeout \<in> set (console s)"
  by (simp add: check_pr_mergeable_status_def max_attempts_def upt_5
      split: response.splits body.splits)

text \<open>
  C4. If the first fetched observation is (mergeable true, state clean), the poller
  returns its success result with that observation after exactly one fetch, and no
  backoff wait is made: the only action added to the trace is the fetch.
\<close>

theorem first_clean_one_fetch:
  assumes "http_get_pull e (trace s) (repo_name s) pr = Response 200 (Json d)"
    and "mergeable d = Some True" and "mergeable_state d = Some ''clean''"
  shows "fst (check_pr_mergeable_status e pr s) = (True, Some d)
       \<and> trace (snd (check_pr_mergeable_status e pr s)) = trace s @ [GetPull (repo_name s) pr]"
  using assms
  by (simp add: check_pr_mergeable_status_def range_max_attempts)

theorem first_clean_one_fetch_witness:
  "http_get_pull env_ok (trace ready_state) (repo_name ready_state) 42 = Response 200 (Json clean_pr)
   \<and> mergeable clean_pr = Some True \<and> mergeable_state clean_pr = Some ''clean''
   \<and> fst (check_pr_mergeable_status env_ok 42 ready_state) = (True, Some clean_pr)
   \<and> trace (snd (check_pr_mergeable_status env_ok 42 ready_state)) = [GetPull (Some ''org/repo'') 42]"
  using first_clean_one_fetch [of env_ok ready_state 42 clean_pr]
  by (simp add: env_ok_def ready_state_def clean_pr_def)

text \<open>
  C9. At any attempt of the poll, a fetch that raises or that returns a status other than
  200 ends the poll at once with \<^verbatim>\<open>(False, None)\<close>: the fetch is the only action added,
  so no wait is made and no further attempt is used. More generally, the poll goes on to
  another attempt only after an observation whose state is \<^verbatim>\<open>unknown\<close>.
\<close>

theorem fetch_failure_ends_poll:
  "((http_get_pull e (trace s) (repo_name s) pr = Raised
      \<or> (\<exists>code b. http_get_pull e (trace s) (repo_name s) pr = Response code b \<and> code \<noteq> 200))
     \<longrightarrow> fst (poll_attempts e pr (a # rest) s) = (False, None)
         \<and> trace (snd (poll_attempts e pr (a # rest) s)) = trace s @ [GetPull (repo_name s) pr])
   \<and> (\<not> is_unknown (http_get_pull e (trace s) (repo_name s) pr)
     \<longrightarrow> trace (snd (poll_attempts e pr (a # rest) s)) = trace s @ [GetPull (repo_name s) pr])"
  by (auto simp: is_unknown_def split: response.splits body.splits)

theorem fetch_failure_ends_poll_witness:
  "http_get_pull env_not_found (trace ready_state) (repo_name ready_state) 42 = Response 404 Empty
   \<and> \<not> is_unknown (http_get_pull env_not_found (trace ready_state) (repo_name ready_state) 42)
   \<and> fst (poll_attempts env_not_found 42 [0, 1, 2, 3, 4] ready_state) = (False, None)
   \<and> trace (snd (poll_attempts env_not_found 42 [0, 1, 2, 3, 4] ready_state))
       = [GetPull (Some ''org/repo'') 42]"
  using fetch_failure_ends_poll [of env_not_found ready_state 42 0 "[1, 2, 3, 4]"]
  by (simp add: env_not_found_def env_ok_def ready_state_def is_unknown_def)

text \<open>
  C5. At any attempt of the poll, an observation that is neither (true, clean) nor
  (false, dirty) and whose state is not \<^verbatim>\<open>unknown\<close> ends the poll at once: the result is
  the failure result with that observation, the fetch is the only action added (no wait,
  no retry), and the state is reported as unrecognised. A run whose console holds such a
  report never calls the merge endpoint.
\<close>

theorem unrecognised_state_is_ambiguous:
  "(http_get_pull e (trace s) (repo_name s) pr = Response 200 (Json d)
      \<and> \<not> (mergeable d = Some True \<and> mergeable_state d = Some ''clean'')
      \<and> \<not> (mergeable d = Some False \<and> mergeable_state d = Some ''dirty'')
      \<and> mergeable_state d \<noteq> Some ''unknown''
     \<longrightarrow> fst (poll_attempts e pr (a # rest) s) = (False, Some d)
         \<and> trace (snd (poll_attempts e pr (a # rest) s)) = trace s @ [GetPull (repo_name s) pr]
         \<and> console (snd (poll_attempts e pr (a # rest) s)) =
             console s @ [MsgAttempt (a + 1) max_attempts (mergeable d) (mergeable_state d),
                          MsgOtherState (mergeable_state d)])
   \<and> (MsgOtherState st \<in> set (console (state_of (main e b)))
     \<longrightarrow> filter is_merge_call (trace (state_of (main e b))) = [])"
proof -
  have "filter is_merge_call (trace (state_of (main e b))) = []"
    if m: "MsgOtherState st \<in> set (console (state_of (main e b)))"
  proof -
    have "MsgOtherState st \<in> set (other_reports (console (state_of (main e b))))"
      using m by (simp add: other_reports_def)
    then have "other_reports (console (state_of (main e b))) \<noteq> []"
      by auto
    then have "is_mergeable (frame_of (main e b)) = Some False"
      using run_full_test_calls
        [of e "init_tester b"]
      by (auto simp: main_def init_tester_def)
    then show ?thesis
      using run_full_test_calls
        [of e "init_tester b"]
      by (simp add: main_def init_tester_def merge_calls_def)
  qed
  then show ?thesis by auto
qed

lemma run_env_blocked:
  "main env_blocked ''main'' =
     ((UnboundLocalError, \<lparr>test_branch = Some ''test-merge-clean-120000'', pr_number = Some 42,
                   is_mergeable = Some False, merge_success = None\<rparr>),
      \<lparr>token = Some ''ghp_x'', repo_name = Some ''org/repo'',
       head = ''test-merge-clean-120000'',
       trace =
         [Git [''git'', ''config'', ''--get'', ''remote.origin.url''], Ask,
          Git [''git'', ''checkout'', ''main''],
          Git [''git'', ''pull'', ''origin'', ''main''],
          Git [''git'', ''checkout'', ''-b'', ''test-merge-clean-120000''],
          WriteMarker, Git [''git'', ''add'', ''test_merge_file.txt''],
          Git [''git'', ''commit'', ''-m'', commit_message ''120000''],
          Git [''git'', ''push'', ''origin'', ''test-merge-clean-120000''],
          PostPull (Some ''org/repo'') ''test-merge-clean-120000'', Sleep 2,
          GetPull (Some ''org/repo'') 42],
       console =
         [MsgRepository (Some ''org/repo''),
          MsgBranchCreated ''test-merge-clean-120000'',
          MsgPRCreated (Some 42), MsgAttempt 1 5 None (Some ''blocked''),
          MsgOtherState (Some ''blocked''), MsgResultUnexpectedConflicts]\<rparr>)"
  by (simp add: run_defs sample_defs env_blocked_def blocked_pr_def)

theorem unrecognised_state_is_ambiguous_witness:
  "http_get_pull env_blocked (trace ready_state) (repo_name ready_state) 42
     = Response 200 (Json blocked_pr)
   \<and> mergeable blocked_pr = None \<and> mergeable_state blocked_pr = Some ''blocked''
   \<and> fst (poll_attempts env_blocked 42 [0, 1, 2, 3, 4] ready_state) = (False, Some blocked_pr)
   \<and> trace (snd (poll_attempts env_blocked 42 [0, 1, 2, 3, 4] ready_state))
       = [GetPull (Some ''org/repo'') 42]
   \<and> MsgOtherState (Some ''blocked'') \<in> set (console (state_of (main env_blocked ''main'')))
   \<and> filter is_merge_call (trace (state_of (main env_blocked ''main''))) = []"
proof -
  have a: "http_get_pull env_blocked (trace ready_state) (repo_name ready_state) 42
             = Response 200 (Json blocked_pr)"
    by (simp add: env_blocked_def env_ok_def)
  have b: "mergeable blocked_pr = None" "mergeable_state blocked_pr = Some ''blocked''"
    by (simp_all add: blocked_pr_def clean_pr_def)
  have c: "MsgOtherState (Some ''blocked'') \<in> set (console (state_of (main env_blocked ''main'')))"
    by (simp add: run_env_blocked state_of_def)
  have d: "trace ready_state = []" "repo_name ready_state = Some ''org/repo''"
    by (simp_all add: ready_state_def)
  show ?thesis
    using unrecognised_state_is_ambiguous
      [of env_blocked ready_state 42 blocked_pr 0 "[1, 2, 3, 4]" "Some ''blocked''" "''main''"]
      a b c d
    by simp
qed

subsection \<open>How a run ends\<close>

lemma poll_and_merge_exit:
  "exit_of (poll_and_merge e tb n s) =
     (if is_mergeable (frame_of (poll_and_merge e tb n s)) = Some True then Returned
      else UnboundLocalError)
   \<and> (is_mergeable (frame_of (poll_and_merge e tb n s)) = Some True
        \<or> is_mergeable (frame_of (poll_and_merge e tb n s)) = Some False)
   \<and> (merge_success (frame_of (poll_and_merge e tb n s)) = None \<longleftrightarrow>
        is_mergeable (frame_of (poll_and_merge e tb n s)) = Some False)
   \<and> (merge_success (frame_of (poll_and_merge e tb n s)) \<noteq> None
        \<longrightarrow> console (state_of (poll_and_merge e tb n s)) \<noteq> []
          \<and> last (console (state_of (poll_and_merge e tb n s))) = MsgConclusions)"
  by (simp add: poll_and_merge_def finish_def exit_of_def frame_of_def state_of_def split_beta)

lemma provision_and_test_exit:
  "exit_of (provision_and_test e s) =
     (if is_mergeable (frame_of (provision_and_test e s)) = Some False then UnboundLocalError
      else Returned)
   \<and> (merge_success (frame_of (provision_and_test e s)) \<noteq> None
        \<longrightarrow> is_mergeable (frame_of (provision_and_test e s)) = Some True
          \<and> console (state_of (provision_and_test e s)) \<noteq> []
          \<and> last (console (state_of (provision_and_test e s))) = MsgConclusions)"
proof -
  obtain tbo s1 where c: "create_clean_test_branch e s = (tbo, s1)" by (metis surj_pair)
  show ?thesis
  proof (cases tbo)
    case None
    with c show ?thesis
      by (simp add: provision_and_test_def exit_of_def state_of_def frame_of_def unbound_def)
  next
    case (Some tb)
    obtain no s2 where q: "create_test_pr_clean e tb s1 = (no, s2)" by (metis surj_pair)
    show ?thesis
    proof (cases no)
      case None
      with c Some q show ?thesis
        by (simp add: provision_and_test_def exit_of_def state_of_def frame_of_def unbound_def)
    next
      case (Some n)
      show ?thesis
      proof (cases "n = 0")
        case True
        with c \<open>tbo = Some tb\<close> Some q show ?thesis
          by (simp add: provision_and_test_def exit_of_def state_of_def frame_of_def unbound_def)
      next
        case False
        have pm: "provision_and_test e s = poll_and_merge e tb n s2"
          using c \<open>tbo = Some tb\<close> Some q False by (simp add: provision_and_test_def)
        from poll_and_merge_exit [of e tb n s2] show ?thesis
          unfolding pm by auto
      qed
    qed
  qed
qed

lemma run_full_test_exit:
  "exit_of (run_full_test e s) =
     (if is_mergeable (frame_of (run_full_test e s)) = Some False then UnboundLocalError
      else Returned)
   \<and> (merge_success (frame_of (run_full_test e s)) \<noteq> None
        \<longrightarrow> is_mergeable (frame_of (run_full_test e s)) = Some True
          \<and> console (state_of (run_full_test e s)) \<noteq> []
          \<and> last (console (state_of (run_full_test e s))) = MsgConclusions)"
proof -
  obtain t s1 where g: "get_github_token e s = (t, s1)" by (metis surj_pair)
  obtain r s2 where h: "get_repo_name e s1 = (r, s2)" by (metis surj_pair)
  have u: "is_mergeable unbound = None" "merge_success unbound = None"
    by (simp_all add: unbound_def)
  show ?thesis
  proof (cases "t \<and> r \<and> confirm e (trace s2)")
    case True
    then have "run_full_test e s
        = provision_and_test e (act Ask (say (MsgRepository (repo_name s2)) s2))"
      using g h by (simp add: run_full_test_def)
    then show ?thesis
      using provision_and_test_exit [of e "act Ask (say (MsgRepository (repo_name s2)) s2)"]
      by simp
  next
    case False
    then have "fst (run_full_test e s) = (Returned, unbound)"
      using g h by (auto simp: run_full_test_def)
    then show ?thesis
      using u by (simp add: exit_of_def frame_of_def)
  qed
qed

text \<open>
  C3, on the code: the poll finds the pull request in conflict at the first fetch. The run
  ends with the exception for the unassigned \<^verbatim>\<open>merge_success\<close>; the last action is the
  fetch of the poll, so no step of the cleanup is run and the working copy stays on the
  test branch.
\<close>

theorem conflicted_run_skips_cleanup:
  "exit_of (main env_dirty ''main'') = UnboundLocalError
   \<and> is_mergeable (frame_of (main env_dirty ''main'')) = Some False
   \<and> merge_success (frame_of (main env_dirty ''main'')) = None
   \<and> trace (state_of (main env_dirty ''main'')) =
       [Git [''git'', ''config'', ''--get'', ''remote.origin.url''], Ask,
        Git [''git'', ''checkout'', ''main''],
        Git [''git'', ''pull'', ''origin'', ''main''],
        Git [''git'', ''checkout'', ''-b'', ''test-merge-clean-120000''],
        WriteMarker, Git [''git'', ''add'', ''test_merge_file.txt''],
        Git [''git'', ''commit'', ''-m'', commit_message ''120000''],
        Git [''git'', ''push'', ''origin'', ''test-merge-clean-120000''],
        PostPull (Some ''org/repo'') ''test-merge-clean-120000'', Sleep 2,
        GetPull (Some ''org/repo'') 42]
   \<and> head (state_of (main env_dirty ''main'')) = ''test-merge-clean-120000''"
  by (simp add: run_env_dirty exit_of_def frame_of_def state_of_def)

text \<open>
  Every run whose poll does not return its success result ends with that exception, before
  the cleanup.
\<close>

lemma not_ready_run_raises:
  "is_mergeable (frame_of (main e b)) = Some False
     \<Longrightarrow> exit_of (main e b) = UnboundLocalError \<and> merge_success (frame_of (main e b)) = None"
  using run_full_test_exit [of e "init_tester b"]
  by (auto simp: main_def)

subsection \<open>Cleanup\<close>

lemma run_git_failed:
  "git_run e (trace s) argv = ProcFailed \<Longrightarrow> run_git e argv s = (False, act (Git argv) s)"
  by (simp add: run_git_def)

lemma run_git_exited:
  "git_run e (trace s) argv \<noteq> ProcFailed
     \<Longrightarrow> run_git e argv s = (True, git_effect argv (act (Git argv) s))"
  by (cases "git_run e (trace s) argv") (simp_all add: run_git_def)

text \<open>
  C8. The steps of the cleanup run in the order checkout of trunk, deletion of the local
  branch, deletion of the remote branch, removal of the marker file (when it exists). The
  first step that fails is the last one run: the later steps are not attempted, and the
  warning is printed in place of the completion line. A run whose merge was attempted and
  refused returns normally and ends with its conclusions, whatever the cleanup did.
\<close>

theorem cleanup_stops_at_first_failure:
  "(git_run e (trace s) [''git'', ''checkout'', ''main''] = ProcFailed
      \<longrightarrow> trace (cleanup_test_branch e b s) = trace s @ [Git [''git'', ''checkout'', ''main'']]
        \<and> console (cleanup_test_branch e b s) = console s @ [MsgCleanupError])
   \<and> (git_run e (trace s) [''git'', ''checkout'', ''main''] \<noteq> ProcFailed
      \<and> git_run e (trace s @ [Git [''git'', ''checkout'', ''main'']]) [''git'', ''branch'', ''-D'', b]
          = ProcFailed
      \<longrightarrow> trace (cleanup_test_branch e b s) =
            trace s @ [Git [''git'', ''checkout'', ''main''], Git [''git'', ''branch'', ''-D'', b]]
        \<and> console (cleanup_test_branch e b s) = console s @ [MsgCleanupError])
   \<and> (git_run e (trace s) [''git'', ''checkout'', ''main''] \<noteq> ProcFailed
      \<and> git_run e (trace s @ [Git [''git'', ''checkout'', ''main'']]) [''git'', ''branch'', ''-D'', b]
          \<noteq> ProcFailed
      \<and> git_run e (trace s @ [Git [''git'', ''checkout'', ''main''], Git [''git'', ''branch'', ''-D'', b]])
            [''git'', ''push'', ''origin'', ''--delete'', b] = ProcFailed
      \<longrightarrow> trace (cleanup_test_branch e b s) =
            trace s @ [Git [''git'', ''checkout'', ''main''], Git [''git'', ''branch'', ''-D'', b],
                       Git [''git'', ''push'', ''origin'', ''--delete'', b]]
        \<and> console (cleanup_test_branch e b s) = console s @ [MsgCleanupError])
   \<and> (git_run e (trace s) [''git'', ''checkout'', ''main''] \<noteq> ProcFailed
      \<and> git_run e (trace s @ [Git [''git'', ''checkout'', ''main'']]) [''git'', ''branch'', ''-D'', b]
          \<noteq> ProcFailed
      \<and> git_run e (trace s @ [Git [''git'', ''checkout'', ''main''], Git [''git'', ''branch'', ''-D'', b]])
            [''git'', ''push'', ''origin'', ''--delete'', b] \<noteq> ProcFailed
      \<longrightarrow> trace (cleanup_test_branch e b s) =
            trace s @ [Git [''git'', ''checkout'', ''main''], Git [''git'', ''branch'', ''-D'', b],
                       Git [''git'', ''push'', ''origin'', ''--delete'', b], ExistsMarker]
              @ (if exists_marker e
                      (trace s @ [Git [''git'', ''checkout'', ''main''],
                                  Git [''git'', ''branch'', ''-D'', b],
                                  Git [''git'', ''push'', ''origin'', ''--delete'', b]])
                 then [RemoveMarker] else [])
        \<and> console (cleanup_test_branch e b s) =
            console s @
              [if exists_marker e
                    (trace s @ [Git [''git'', ''checkout'', ''main''],
                                Git [''git'', ''branch'', ''-D'', b],
                                Git [''git'', ''push'', ''origin'', ''--delete'', b]])
                  \<and> \<not> remove_marker e
                    (trace s @ [Git [''git'', ''checkout'', ''main''],
                                Git [''git'', ''branch'', ''-D'', b],
                                Git [''git'', ''push'', ''origin'', ''--delete'', b], ExistsMarker])
               then MsgCleanupError else MsgCleanupDone])
   \<and> (merge_success (frame_of (main e start)) = Some False
      \<longrightarrow> exit_of (main e start) = Returned
        \<and> last (console (state_of (main e start))) = MsgConclusions)"
proof -
  let ?g1 = "[''git'', ''checkout'', ''main'']"
  let ?g2 = "[''git'', ''branch'', ''-D'', b]"
  let ?g3 = "[''git'', ''push'', ''origin'', ''--delete'', b]"
  let ?c = "cleanup_test_branch e b s"
  have 1: "trace ?c = trace s @ [Git ?g1] \<and> console ?c = console s @ [MsgCleanupError]"
    if "git_run e (trace s) ?g1 = ProcFailed"
    using that by (simp add: cleanup_test_branch_def cleanup_steps_def run_git_failed)
  have 2: "trace ?c = trace s @ [Git ?g1, Git ?g2] \<and> console ?c = console s @ [MsgCleanupError]"
    if "git_run e (trace s) ?g1 \<noteq> ProcFailed"
      and "git_run e (trace s @ [Git ?g1]) ?g2 = ProcFailed"
    using that
    by (simp add: cleanup_test_branch_def cleanup_steps_def run_git_failed run_git_exited)
  have 3: "trace ?c = trace s @ [Git ?g1, Git ?g2, Git ?g3]
        \<and> console ?c = console s @ [MsgCleanupError]"
    if "git_run e (trace s) ?g1 \<noteq> ProcFailed"
      and "git_run e (trace s @ [Git ?g1]) ?g2 \<noteq> ProcFailed"
      and "git_run e (trace s @ [Git ?g1, Git ?g2]) ?g3 = ProcFailed"
    using that
    by (simp add: cleanup_test_branch_def cleanup_steps_def run_git_failed run_git_exited)
  have 4: "trace ?c = trace s @ [Git ?g1, Git ?g2, Git ?g3, ExistsMarker]
              @ (if exists_marker e (trace s @ [Git ?g1, Git ?g2, Git ?g3])
                 then [RemoveMarker] else [])
        \<and> console ?c = console s @
              [if exists_marker e (trace s @ [Git ?g1, Git ?g2, Git ?g3])
                  \<and> \<not> remove_marker e (trace s @ [Git ?g1, Git ?g2, Git ?g3, ExistsMarker])
               then MsgCleanupError else MsgCleanupDone]"
    if "git_run e (trace s) ?g1 \<noteq> ProcFailed"
      and "git_run e (trace s @ [Git ?g1]) ?g2 \<noteq> ProcFailed"
      and "git_run e (trace s @ [Git ?g1, Git ?g2]) ?g3 \<noteq> ProcFailed"
    using that
    by (simp add: cleanup_test_branch_def cleanup_steps_def run_git_failed run_git_exited)
  have 5: "merge_success (frame_of (main e start)) = Some False
      \<longrightarrow> exit_of (main e start) = Returned
        \<and> last (console (state_of (main e start))) = MsgConclusions"
    using run_full_test_exit [of e "init_tester start"]
    by (auto simp: main_def split: if_splits)
  from 1 2 3 4 5 show ?thesis by blast
qed

theorem cleanup_stops_at_first_failure_witness:
  "git_run env_branch_kept (trace ready_state) [''git'', ''checkout'', ''main''] \<noteq> ProcFailed
   \<and> git_run env_branch_kept (trace ready_state @ [Git [''git'', ''checkout'', ''main'']])
        [''git'', ''branch'', ''-D'', ''test-merge-clean-120000''] = ProcFailed
   \<and> trace (cleanup_test_branch env_branch_kept ''test-merge-clean-120000'' ready_state) =
        [Git [''git'', ''checkout'', ''main''],
         Git [''git'', ''branch'', ''-D'', ''test-merge-clean-120000'']]
   \<and> console (cleanup_test_branch env_branch_kept ''test-merge-clean-120000'' ready_state)
        = [MsgCleanupError]
   \<and> merge_success (frame_of (main env_refused ''main'')) = Some False
   \<and> exit_of (main env_refused ''main'') = Returned
   \<and> last (console (state_of (main env_refused ''main''))) = MsgConclusions"
proof -
  have a: "git_run env_branch_kept (trace ready_state) [''git'', ''checkout'', ''main''] \<noteq> ProcFailed"
    "git_run env_branch_kept (trace ready_state @ [Git [''git'', ''checkout'', ''main'']])
        [''git'', ''branch'', ''-D'', ''test-merge-clean-120000''] = ProcFailed"
    by (simp_all add: env_branch_kept_def env_ok_def)
  have b: "merge_success (frame_of (main env_refused ''main'')) = Some False"
    by (simp add: run_env_refused frame_of_def)
  have c: "trace ready_state = []" "console ready_state = []"
    by (simp_all add: ready_state_def)
  show ?thesis
    using a b c
      cleanup_stops_at_first_failure
        [where e = env_branch_kept and s = ready_state and b = "''test-merge-clean-120000''"]
      cleanup_stops_at_first_failure [where e = env_refused and start = "''main''"]
    by simp
qed

subsection \<open>The branch checked out when the run ends\<close>

lemma try_steps_Cons_ok:
  "try_steps e (x # xs) s = (True, s')
     \<Longrightarrow> \<exists>s1. do_step e x s = (True, s1) \<and> try_steps e xs s1 = (True, s')"
  by (cases "do_step e x s") (auto split: if_splits)

lemma run_git_ok:
  "run_git e argv s = (True, s1) \<Longrightarrow> s1 = git_effect argv (act (Git argv) s)"
  by (auto simp: run_git_def split: proc_result.splits)

lemma provision_head:
  assumes "create_clean_test_branch e s = (Some tb, s')"
  shows "tb = ''test-merge-clean-'' @ now e \<and> head s' = tb"
proof -
  let ?tb = "''test-merge-clean-'' @ now e"
  from assms obtain t where t: "try_steps e (provision_steps (now e) ?tb) s = (True, t)"
    and tb: "tb = ?tb" and s': "s' = say (MsgBranchCreated ?tb) t"
    by (auto simp: create_clean_test_branch_def split: prod.splits if_splits)
  from t obtain s1 s2 s3 s4 s5 s6 where
    "do_step e (RunGit [''git'', ''checkout'', ''main'']) s = (True, s1)"
    "do_step e (RunGit [''git'', ''pull'', ''origin'', ''main'']) s1 = (True, s2)"
    "do_step e (RunGit [''git'', ''checkout'', ''-b'', ?tb]) s2 = (True, s3)"
    "do_step e WriteMarkerFile s3 = (True, s4)"
    "do_step e (RunGit [''git'', ''add'', marker_file]) s4 = (True, s5)"
    "do_step e (RunGit [''git'', ''commit'', ''-m'', commit_message (now e)]) s5 = (True, s6)"
    "do_step e (RunGit [''git'', ''push'', ''origin'', ?tb]) s6 = (True, t)"
    unfolding provision_steps_def
    by (fastforce dest!: try_steps_Cons_ok)
  then have "head s3 = ?tb" "head s4 = head s3" "head s5 = head s4" "head s6 = head s5"
    "head t = head s6"
    by (auto dest!: run_git_ok simp: git_effect_def marker_file_def)
  with tb s' show ?thesis by simp
qed

lemma try_steps_keep_head:
  "(\<And>argv t. RunGit argv \<in> set xs \<Longrightarrow> head (git_effect argv t) = head t)
     \<Longrightarrow> head (snd (try_steps e xs s)) = head s"
proof (induction xs arbitrary: s)
  case Nil
  show ?case by simp
next
  case (Cons x xs)
  have "head (snd (do_step e x s)) = head s"
    using Cons.prems [of _ "act (Git _) s"]
    by (cases x) (auto simp: run_git_def split: proc_result.splits)
  moreover have "head (snd (try_steps e xs (snd (do_step e x s)))) = head (snd (do_step e x s))"
    using Cons.prems by (intro Cons.IH) auto
  ultimately show ?case
    by (simp add: split_beta)
qed

lemma cleanup_head:
  assumes "git_run e (trace s) [''git'', ''checkout'', ''main''] \<noteq> ProcFailed"
  shows "head (cleanup_test_branch e b s) = ''main''"
proof -
  let ?s1 = "git_effect [''git'', ''checkout'', ''main''] (act (Git [''git'', ''checkout'', ''main'']) s)"
  let ?rest = "[RunGit [''git'', ''branch'', ''-D'', b],
                RunGit [''git'', ''push'', ''origin'', ''--delete'', b], RemoveMarkerIfExists]"
  have "head (snd (try_steps e ?rest ?s1)) = head ?s1"
    by (rule try_steps_keep_head) (auto simp: git_effect_def)
  moreover have "head ?s1 = ''main''"
    by (simp add: git_effect_def)
  moreover have "try_steps e (cleanup_steps b) s = try_steps e ?rest ?s1"
    unfolding cleanup_steps_def
    by (subst try_steps.simps(2)) (simp add: run_git_exited assms del: try_steps.simps)
  ultimately have "head (snd (try_steps e (cleanup_steps b) s)) = ''main''"
    by simp
  then show ?thesis
    by (simp add: cleanup_test_branch_def split_beta)
qed

lemma finish_head:
  assumes "\<forall>h. git_run e h [''git'', ''checkout'', ''main''] \<noteq> ProcFailed"
  shows "head (snd (finish e tb (Some False) s)) = ''main''"
    and "head (snd (finish e tb (Some True) s)) = head s"
  using assms by (simp_all add: finish_def survey_frame cleanup_head)

lemma poll_and_merge_head:
  assumes co: "\<forall>h. git_run e h [''git'', ''checkout'', ''main''] \<noteq> ProcFailed"
  shows "(merge_success (frame_of (poll_and_merge e tb n s)) = Some False
            \<longrightarrow> head (state_of (poll_and_merge e tb n s)) = ''main'')
       \<and> (merge_success (frame_of (poll_and_merge e tb n s)) = Some True
            \<longrightarrow> head (state_of (poll_and_merge e tb n s)) = head s)"
proof -
  obtain ok d s1 where p: "check_pr_mergeable_status e n s = ((ok, d), s1)"
    by (metis surj_pair)
  have h1: "head s1 = head s"
    using poll_frame [of e n "[0..<max_attempts]" s] p
    by (simp add: check_pr_mergeable_status_def)
  show ?thesis
  proof (cases ok)
    case False
    with p show ?thesis
      by (simp add: poll_and_merge_def frame_of_def split_beta)
  next
    case True
    obtain m s2 where a: "test_auto_merge_clean e n s1 = (m, s2)" by (metis surj_pair)
    have h2: "head s2 = head s"
      using merge_attempt_frame [of e n s1] a h1 by simp
    show ?thesis
    proof (cases m)
      case True
      with \<open>ok\<close> p a h2 finish_head(2) [OF co, of tb "say MsgResultWorks s2"] show ?thesis
        by (simp add: poll_and_merge_def frame_of_def state_of_def split_beta)
    next
      case False
      with \<open>ok\<close> p a h2 finish_head(1) [OF co, of tb "say MsgResultMergeProblem s2"] show ?thesis
        by (simp add: poll_and_merge_def frame_of_def state_of_def split_beta)
    qed
  qed
qed

lemma provision_and_test_head:
  assumes co: "\<forall>h. git_run e h [''git'', ''checkout'', ''main''] \<noteq> ProcFailed"
  shows "(merge_success (frame_of (provision_and_test e s)) = Some False
          \<or> (test_branch (frame_of (provision_and_test e s)) \<noteq> None
              \<and> is_mergeable (frame_of (provision_and_test e s)) = None)
            \<longrightarrow> head (state_of (provision_and_test e s)) = ''main'')
       \<and> (merge_success (frame_of (provision_and_test e s)) = Some True
            \<longrightarrow> head (state_of (provision_and_test e s)) = ''test-merge-clean-'' @ now e)"
proof -
  obtain tbo s1 where c: "create_clean_test_branch e s = (tbo, s1)" by (metis surj_pair)
  show ?thesis
  proof (cases tbo)
    case None
    with c show ?thesis
      by (simp add: provision_and_test_def state_of_def frame_of_def unbound_def)
  next
    case (Some tb)
    have tb: "tb = ''test-merge-clean-'' @ now e" "head s1 = tb"
      using provision_head [of e s tb s1] c Some by simp_all
    obtain no s2 where q: "create_test_pr_clean e tb s1 = (no, s2)" by (metis surj_pair)
    have h2: "head s2 = tb"
      using create_pr_frame [of e tb s1] q tb by simp
    have cl: "head (cleanup_test_branch e tb s2) = ''main''"
      using co by (simp add: cleanup_head)
    show ?thesis
    proof (cases no)
      case None
      with c Some q cl show ?thesis
        by (simp add: provision_and_test_def state_of_def frame_of_def unbound_def)
    next
      case (Some n)
      show ?thesis
      proof (cases "n = 0")
        case True
        with c \<open>tbo = Some tb\<close> Some q cl show ?thesis
          by (simp add: provision_and_test_def state_of_def frame_of_def unbound_def)
      next
        case False
        have pm: "provision_and_test e s = poll_and_merge e tb n s2"
          using c \<open>tbo = Some tb\<close> Some q False by (simp add: provision_and_test_def)
        have "is_mergeable (frame_of (poll_and_merge e tb n s2)) \<noteq> None"
          using poll_and_merge_exit [of e tb n s2] by auto
        with poll_and_merge_head [OF co, of tb n s2] h2 tb show ?thesis
          unfolding pm by auto
      qed
    qed
  qed
qed

text \<open>
  C6, as the code has it. Provided \<^verbatim>\<open>git checkout main\<close> succeeds whenever it is run: a
  run that ends after the creation of the pull request failed, or after a merge that was
  attempted and not reported successful, leaves the working copy on trunk (both go through
  the cleanup); a run whose merge succeeded skips the cleanup and leaves the working copy
  on the test branch.
\<close>

theorem trunk_restored_by_cleanup_only:
  assumes co: "\<forall>h. git_run e h [''git'', ''checkout'', ''main''] \<noteq> ProcFailed"
  shows "(merge_success (frame_of (main e b)) = Some False
          \<or> (test_branch (frame_of (main e b)) \<noteq> None \<and> is_mergeable (frame_of (main e b)) = None)
            \<longrightarrow> exit_of (main e b) = Returned \<and> head (state_of (main e b)) = ''main'')
       \<and> (merge_success (frame_of (main e b)) = Some True
            \<longrightarrow> exit_of (main e b) = Returned
              \<and> head (state_of (main e b)) = ''test-merge-clean-'' @ now e)"
proof -
  let ?s = "init_tester b"
  obtain t s1 where g: "get_github_token e ?s = (t, s1)" by (metis surj_pair)
  obtain r s2 where h: "get_repo_name e s1 = (r, s2)" by (metis surj_pair)
  have u: "is_mergeable unbound = None" "merge_success unbound = None" "test_branch unbound = None"
    by (simp_all add: unbound_def)
  have x: "merge_success (frame_of (main e b)) \<noteq> None \<longrightarrow> exit_of (main e b) = Returned"
    "is_mergeable (frame_of (main e b)) = None \<longrightarrow> exit_of (main e b) = Returned"
    using run_full_test_exit [of e ?s] by (auto simp: main_def)
  show ?thesis
  proof (cases "t \<and> r \<and> confirm e (trace s2)")
    case True
    then have "main e b = provision_and_test e (act Ask (say (MsgRepository (repo_name s2)) s2))"
      using g h by (simp add: main_def run_full_test_def)
    then show ?thesis
      using provision_and_test_head [OF co, of "act Ask (say (MsgRepository (repo_name s2)) s2)"] x
      by auto
  next
    case False
    then have "fst (main e b) = (Returned, unbound)"
      using g h by (auto simp: main_def run_full_test_def)
    then show ?thesis
      using u by (simp add: frame_of_def)
  qed
qed

theorem trunk_restored_by_cleanup_only_witness:
  "(\<forall>h. git_run env_refused h [''git'', ''checkout'', ''main''] \<noteq> ProcFailed)
   \<and> merge_success (frame_of (main env_refused ''main'')) = Some False
   \<and> head (state_of (main env_refused ''main'')) = ''main''
   \<and> (\<forall>h. git_run env_ok h [''git'', ''checkout'', ''main''] \<noteq> ProcFailed)
   \<and> merge_success (frame_of (main env_ok ''main'')) = Some True
   \<and> head (state_of (main env_ok ''main'')) = ''test-merge-clean-'' @ now env_ok"
proof -
  have a: "\<forall>h. git_run env_refused h [''git'', ''checkout'', ''main''] \<noteq> ProcFailed"
    by (simp add: env_refused_def env_ok_def)
  have b: "\<forall>h. git_run env_ok h [''git'', ''checkout'', ''main''] \<noteq> ProcFailed"
    by (simp add: env_ok_def)
  have c: "merge_success (frame_of (main env_refused ''main'')) = Some False"
    "merge_success (frame_of (main env_ok ''main'')) = Some True"
    by (simp_all add: run_env_refused run_env_ok frame_of_def)
  show ?thesis
    using a b c trunk_restored_by_cleanup_only [OF a, of "''main''"]
      trunk_restored_by_cleanup_only [OF b, of "''main''"]
    by simp
qed

text \<open>
  C6, as stated, fails on the run in which everything succeeds: the run switches to the
  test branch, merges, skips the cleanup and returns with the test branch checked out.
\<close>

theorem merged_run_ends_off_trunk:
  "exit_of (main env_ok ''main'') = Returned
   \<and> Git [''git'', ''checkout'', ''-b'', ''test-merge-clean-120000'']
        \<in> set (trace (state_of (main env_ok ''main'')))
   \<and> head (state_of (main env_ok ''main'')) = ''test-merge-clean-120000''
   \<and> head (state_of (main env_ok ''main'')) \<noteq> ''main''"
  by (simp add: run_env_ok exit_of_def state_of_def)

text \<open>
  When provisioning fails after the switch to the test branch (here the push is rejected),
  the run returns at once, without cleanup, and the test branch stays checked out.
\<close>

lemma run_env_push_rejected:
  "exit_of (main env_push_rejected ''main'') = Returned
   \<and> frame_of (main env_push_rejected ''main'') = unbound
   \<and> head (state_of (main env_push_rejected ''main'')) = ''test-merge-clean-120000''
   \<and> last (trace (state_of (main env_push_rejected ''main'')))
       = Git [''git'', ''push'', ''origin'', ''test-merge-clean-120000'']"
  by (simp add: run_defs sample_defs env_push_rejected_def)

subsection \<open>The survey of open pull requests\<close>





text \<open>
  A detail fetch that raises is not skipped: the exception leaves the loop, the later pull
  requests are not fetched, and the handler around the survey reports an error in place
  of any result.
\<close>

lemma survey_aborts_when_fetch_raises:
  assumes "http_get_open e (trace s) (repo_name s) = Response 200 (Json (n # ns))"
    and "http_get_pull e (trace s @ [GetOpenPulls (repo_name s)]) (repo_name s) n = Raised"
  shows "trace (test_conflict_resolution_strategy e s) =
           trace s @ [GetOpenPulls (repo_name s), GetPull (repo_name s) n]
       \<and> console (test_conflict_resolution_strategy e s) = console s @ [MsgSurveyError]"
  using assms by (simp add: test_conflict_resolution_strategy_def)

subsection \<open>The pattern of \<^verbatim>\<open>get_repo_name\<close>\<close>

lemma first_match_Some:
  "first_match f xs = Some y \<Longrightarrow> \<exists>x \<in> set xs. f x = Some y"
  by (induction xs) (auto split: option.splits)

lemma plus_candidates_mem:
  assumes "b \<in> set (plus_candidates P s)"
  shows "b \<noteq> [] \<and> (\<forall>c \<in> set b. P c) \<and> (\<exists>t. s = b @ t)"
proof -
  have m: "b \<in> set (tl (prefixes (takeWhile P s)))"
    using assms by (simp add: plus_candidates_def)
  have "b \<noteq> [] \<and> prefix b (takeWhile P s)"
  proof (cases "takeWhile P s")
    case Nil
    with m show ?thesis by simp
  next
    case (Cons x xs)
    with m show ?thesis by auto
  qed
  then obtain u where u: "b \<noteq> []" "takeWhile P s = b @ u"
    by (auto simp: prefix_def)
  have "\<forall>c \<in> set b. P c"
  proof
    fix c assume "c \<in> set b"
    then have "c \<in> set (takeWhile P s)" using u by simp
    then show "P c" by (rule set_takeWhileD [THEN conjunct2])
  qed
  moreover have "s = b @ (u @ dropWhile P s)"
    using u takeWhile_dropWhile_id [of P s] by (metis append.assoc)
  ultimately show ?thesis using u by blast
qed

lemma match_name_Some:
  assumes "match_name r = Some b"
  shows "b \<noteq> [] \<and> CHR ''.'' \<notin> set b \<and> (\<exists>t. r = b @ t \<and> opt_git_end t)"
proof -
  from assms obtain x where x: "x \<in> set (plus_candidates (\<lambda>c. c \<noteq> CHR ''.'') r)"
    and f: "(if opt_git_end (drop (length x) r) then Some x else None) = Some b"
    unfolding match_name_def by (blast dest: first_match_Some)
  from f have xb: "x = b" and og: "opt_git_end (drop (length b) r)"
    by (auto split: if_splits)
  from plus_candidates_mem [OF x] obtain t where
    t: "b \<noteq> []" "\<forall>c \<in> set b. c \<noteq> CHR ''.''" "r = b @ t"
    unfolding xb by blast
  from og t(3) have "opt_git_end t" by simp
  with t show ?thesis by blast
qed

lemma match_at_Some:
  assumes "match_at s = Some g"
  shows "\<exists>c a b t. s = c # a @ ''/'' @ b @ t \<and> b \<noteq> [] \<and> CHR ''.'' \<notin> set b \<and> opt_git_end t
            \<and> g = a @ ''/'' @ b"
proof -
  from assms obtain c rest where s: "s = c # rest"
    by (cases s) (auto simp: match_at_def)
  with assms obtain a where a: "a \<in> set (plus_candidates (\<lambda>c. c \<noteq> CHR ''/'') rest)"
    and f: "(case drop (length a) rest of
               [] \<Rightarrow> None
             | x # r \<Rightarrow> if x = CHR ''/'' then map_option (\<lambda>b. a @ ''/'' @ b) (match_name r)
                        else None) = Some g"
    unfolding match_at_def by (auto split: if_splits dest!: first_match_Some)
  from plus_candidates_mem [OF a] obtain u where u: "rest = a @ u" by blast
  with f obtain r b where r: "u = CHR ''/'' # r" and b: "match_name r = Some b"
    and g: "g = a @ ''/'' @ b"
    by (auto split: list.splits if_splits)
  from match_name_Some [OF b] obtain t where "r = b @ t" "b \<noteq> []" "CHR ''.'' \<notin> set b" "opt_git_end t"
    by blast
  with s u r g show ?thesis by auto
qed

lemma repo_search_Some:
  "repo_search s = Some g
     \<Longrightarrow> \<exists>pre a b t. s = pre @ a @ ''/'' @ b @ t \<and> g = a @ ''/'' @ b
            \<and> b \<noteq> [] \<and> CHR ''.'' \<notin> set b \<and> opt_git_end t"
proof (induction s)
  case Nil
  then show ?case by (simp add: match_at_def)
next
  case (Cons c cs)
  show ?case
  proof (cases "match_at (c # cs)")
    case (Some g')
    with Cons.prems have gg: "g' = g" by simp
    from match_at_Some [OF Some] obtain c' a b t where
      "c # cs = c' # a @ ''/'' @ b @ t" "b \<noteq> []" "CHR ''.'' \<notin> set b" "opt_git_end t"
      "g' = a @ ''/'' @ b"
      by blast
    then have "c # cs = [c'] @ a @ ''/'' @ b @ t \<and> g = a @ ''/'' @ b
        \<and> b \<noteq> [] \<and> CHR ''.'' \<notin> set b \<and> opt_git_end t"
      using gg by simp
    then show ?thesis by blast
  next
    case None
    with Cons.prems have "repo_search cs = Some g" by simp
    from Cons.IH [OF this] obtain pre a b t where
      "cs = pre @ a @ ''/'' @ b @ t" "g = a @ ''/'' @ b" "b \<noteq> []" "CHR ''.'' \<notin> set b"
      "opt_git_end t"
      by blast
    then have "c # cs = (c # pre) @ a @ ''/'' @ b @ t \<and> g = a @ ''/'' @ b
        \<and> b \<noteq> [] \<and> CHR ''.'' \<notin> set b \<and> opt_git_end t"
      by simp
    then show ?thesis by blast
  qed
qed

lemma opt_git_end_cases:
  assumes "opt_git_end t"
  shows "t = [] \<or> t = [CHR 0x0A] \<or> t = ''.git'' \<or> t = ''.git'' @ [CHR 0x0A]"
proof -
  have "t = take 4 t @ drop 4 t" by simp
  with assms show ?thesis
    unfolding opt_git_end_def at_end_def by (metis append_Nil2)
qed

lemma tail_after_dot:
  "CHR ''.'' \<notin> set q \<Longrightarrow> takeWhile (\<lambda>c. c \<noteq> CHR ''.'') (rev (p @ ''.'' @ q)) = rev q"
proof -
  assume "CHR ''.'' \<notin> set q"
  then have "takeWhile (\<lambda>c. c \<noteq> CHR ''.'') (rev q @ (CHR ''.'' # rev p))
      = rev q @ takeWhile (\<lambda>c. c \<noteq> CHR ''.'') (CHR ''.'' # rev p)"
    by (intro takeWhile_append2) auto
  then show ?thesis by simp
qed

lemma tail_after_slash:
  "CHR ''.'' \<notin> set b \<Longrightarrow> CHR ''/'' \<in> set (takeWhile (\<lambda>c. c \<noteq> CHR ''.'') (rev (pre @ ''/'' @ b)))"
proof -
  assume "CHR ''.'' \<notin> set b"
  then have "takeWhile (\<lambda>c. c \<noteq> CHR ''.'') (rev b @ (CHR ''/'' # rev pre))
      = rev b @ takeWhile (\<lambda>c. c \<noteq> CHR ''.'') (CHR ''/'' # rev pre)"
    by (intro takeWhile_append2) auto
  then show ?thesis by simp
qed

lemma strip_last:
  assumes "strip out \<noteq> []"
  shows "\<not> is_space (last (strip out))"
proof -
  let ?z = "dropWhile is_space (rev (dropWhile is_space out))"
  have z: "?z \<noteq> []" using assms by (simp add: strip_def)
  then have "\<not> is_space (hd ?z)" by (rule hd_dropWhile)
  moreover have "last (strip out) = hd ?z"
    using z by (simp add: strip_def last_rev)
  ultimately show ?thesis by simp
qed

lemma dotted_unresolved:
  assumes u: "u = p @ ''.'' @ q @ ext"
    and q: "CHR ''.'' \<notin> set q" "CHR ''/'' \<notin> set q"
    and suf: "(ext = [] \<and> q \<noteq> ''git'') \<or> ext = ''.git''"
    and nl: "last u \<noteq> CHR 0x0A"
  shows "repo_search u = None"
proof (rule ccontr)
  assume "repo_search u \<noteq> None"
  then obtain g where "repo_search u = Some g" by auto
  from repo_search_Some [OF this] obtain pre a b t where
    d: "u = pre @ a @ ''/'' @ b @ t" "b \<noteq> []" "CHR ''.'' \<notin> set b" "opt_git_end t"
    by blast
  let ?tail = "\<lambda>w. takeWhile (\<lambda>c. c \<noteq> CHR ''.'') (rev w)"
  have slash: "\<And>w. w = pre @ a @ ''/'' @ b \<Longrightarrow> CHR ''/'' \<in> set (?tail w)"
    using tail_after_slash [OF d(3), of "pre @ a"] by simp
  from opt_git_end_cases [OF d(4)] consider
    (e) "t = []" | (n) "t = [CHR 0x0A]" | (g) "t = ''.git''" | (gn) "t = ''.git'' @ [CHR 0x0A]"
    by blast
  then show False
  proof cases
    case e
    then have w: "CHR ''/'' \<in> set (?tail u)" using slash [of u] d(1) by simp
    from suf show False
    proof
      assume "ext = [] \<and> q \<noteq> ''git''"
      then have "?tail u = rev q" using u tail_after_dot [OF q(1), of p] by simp
      with w q(2) show False by simp
    next
      assume "ext = ''.git''"
      then have "u = (p @ ''.'' @ q) @ ''.'' @ ''git''" using u by simp
      then have "?tail u = rev ''git''"
        using tail_after_dot [of "''git''" "p @ ''.'' @ q"] by simp
      with w show False by simp
    qed
  next
    case n
    with d(1) nl show False by simp
  next
    case gn
    with d(1) nl show False by simp
  next
    case g
    then have "u = (pre @ a @ ''/'' @ b) @ ''.'' @ ''git''" using d(1) by simp
    then have tg: "?tail u = rev ''git''"
      using tail_after_dot [of "''git''" "pre @ a @ ''/'' @ b"] by simp
    from suf show False
    proof
      assume s: "ext = [] \<and> q \<noteq> ''git''"
      then have "?tail u = rev q" using u tail_after_dot [OF q(1), of p] by simp
      with tg have "rev q = rev ''git''" by simp
      then have "q = ''git''" by (simp only: rev_is_rev_conv)
      with s show False by simp
    next
      assume "ext = ''.git''"
      with u g d(1) have "(p @ ''.'' @ q) @ ''.git'' = (pre @ a @ ''/'' @ b) @ ''.git''"
        by simp
      then have "p @ ''.'' @ q = pre @ a @ ''/'' @ b"
        by (simp only: append_same_eq)
      then have "CHR ''/'' \<in> set (?tail (p @ ''.'' @ q))"
        using slash [of "p @ ''.'' @ q"] by simp
      then show False using tail_after_dot [OF q(1), of p] q(2) by simp
    qed
  qed
qed

text \<open>
  C10, as the code has it. The identity is group 1 of the first match of the pattern in
  the stripped output of \<^verbatim>\<open>git config --get remote.origin.url\<close>, and resolution fails when
  there is no match. A match always runs to the end of the URL, up to an optional
  \<^verbatim>\<open>.git\<close>: nothing is cut at a dot. When the last path segment has a dot before its
  optional \<^verbatim>\<open>.git\<close> suffix, as in \<^verbatim>\<open>org/repo.js\<close> and \<^verbatim>\<open>org/repo.js.git\<close>, the
  pattern does not match and the resolution fails.
\<close>

theorem dotted_name_not_resolved:
  "(git_run e (trace s) [''git'', ''config'', ''--get'', ''remote.origin.url''] = Exited out
      \<longrightarrow> (fst (get_repo_name e s) \<longleftrightarrow> repo_search (strip out) \<noteq> None)
        \<and> repo_name (snd (get_repo_name e s)) =
            (case repo_search (strip out) of None \<Rightarrow> repo_name s | Some g \<Rightarrow> Some g))
   \<and> (repo_search u = Some g \<longrightarrow> (\<exists>pre t. u = pre @ g @ t \<and> opt_git_end t))
   \<and> (strip out = p @ ''.'' @ q @ ext \<and> CHR ''.'' \<notin> set q \<and> CHR ''/'' \<notin> set q
        \<and> ((ext = [] \<and> q \<noteq> ''git'') \<or> ext = ''.git'')
      \<longrightarrow> repo_search (strip out) = None)"
proof -
  have 1: "(fst (get_repo_name e s) \<longleftrightarrow> repo_search (strip out) \<noteq> None)
        \<and> repo_name (snd (get_repo_name e s)) =
            (case repo_search (strip out) of None \<Rightarrow> repo_name s | Some g \<Rightarrow> Some g)"
    if "git_run e (trace s) [''git'', ''config'', ''--get'', ''remote.origin.url''] = Exited out"
    using that by (simp add: get_repo_name_def split: option.splits)
  have 2: "\<exists>pre t. u = pre @ g @ t \<and> opt_git_end t" if "repo_search u = Some g"
  proof -
    from repo_search_Some [OF that] obtain pre a b t where
      "u = pre @ a @ ''/'' @ b @ t" "g = a @ ''/'' @ b" "opt_git_end t"
      by blast
    then have "u = pre @ g @ t \<and> opt_git_end t" by simp
    then show ?thesis by blast
  qed
  have 3: "repo_search (strip out) = None"
    if h: "strip out = p @ ''.'' @ q @ ext \<and> CHR ''.'' \<notin> set q \<and> CHR ''/'' \<notin> set q
        \<and> ((ext = [] \<and> q \<noteq> ''git'') \<or> ext = ''.git'')"
  proof -
    from h have ne: "strip out \<noteq> []" by auto
    have "is_space (CHR 0x0A)" by (simp add: is_space_def)
    with strip_last [OF ne] have "last (strip out) \<noteq> CHR 0x0A" by auto
    with h show ?thesis
      by (intro dotted_unresolved [of "strip out" p q ext]) auto
  qed
  from 1 2 3 show ?thesis by blast
qed

lemma strip_sample:
  "strip (''git@github.com:org/repo.js'' @ [CHR 0x0A]) = ''git@github.com:org/repo.js''"
  by (simp add: strip_def is_space_def)

lemma repo_search_sample: "repo_search ''git@github.com:org/repo.js'' = None"
  by code_simp

text \<open>
  C10, as stated, fails on a remote named \<^verbatim>\<open>org/repo.js\<close>: the identity is not
  \<^verbatim>\<open>org/repo\<close>; none is derived and the resolution fails.
\<close>

theorem dotted_name_is_not_truncated:
  "fst (get_repo_name env_dotted (init_tester ''main'')) = False
   \<and> repo_name (snd (get_repo_name env_dotted (init_tester ''main''))) = None
   \<and> repo_name (snd (get_repo_name env_dotted (init_tester ''main''))) \<noteq> Some ''org/repo''"
proof -
  have g: "git_run env_dotted (trace (init_tester ''main''))
             [''git'', ''config'', ''--get'', ''remote.origin.url'']
           = Exited (''git@github.com:org/repo.js'' @ [CHR 0x0A])"
    by (simp add: env_dotted_def env_ok_def)
  have "get_repo_name env_dotted (init_tester ''main'') =
          (False, act (Git [''git'', ''config'', ''--get'', ''remote.origin.url''])
                    (init_tester ''main''))"
    by (simp only: get_repo_name_def g proc_result.case strip_sample repo_search_sample
        option.case)
  then show ?thesis
    by (simp add: init_tester_def)
qed

theorem dotted_name_not_resolved_witness:
  "git_run env_dotted (trace (init_tester ''main''))
       [''git'', ''config'', ''--get'', ''remote.origin.url'']
     = Exited (''git@github.com:org/repo.js'' @ [CHR 0x0A])
   \<and> strip (''git@github.com:org/repo.js'' @ [CHR 0x0A]) = ''git@github.com:org/repo'' @ ''.'' @ ''js'' @ []
   \<and> repo_search (strip (''git@github.com:org/repo.js'' @ [CHR 0x0A])) = None
   \<and> \<not> fst (get_repo_name env_dotted (init_tester ''main''))
   \<and> repo_search ''git@github.com:org/repo.git'' = Some ''org/repo''
   \<and> (\<exists>pre t. ''git@github.com:org/repo.git'' = pre @ ''org/repo'' @ t \<and> opt_git_end t)"
proof -
  have a: "git_run env_dotted (trace (init_tester ''main''))
       [''git'', ''config'', ''--get'', ''remote.origin.url'']
     = Exited (''git@github.com:org/repo.js'' @ [CHR 0x0A])"
    by (simp add: env_dotted_def env_ok_def)
  have b: "strip (''git@github.com:org/repo.js'' @ [CHR 0x0A])
             = ''git@github.com:org/repo'' @ ''.'' @ ''js'' @ []"
    by (simp add: strip_def is_space_def)
  have c: "CHR ''.'' \<notin> set ''js''" "CHR ''/'' \<notin> set ''js''" "''js'' \<noteq> ''git''"
    by simp_all
  have d: "repo_search ''git@github.com:org/repo.git'' = Some ''org/repo''"
    by code_simp
  note t = dotted_name_not_resolved
        [where e = env_dotted and s = "init_tester ''main''"
           and out = "''git@github.com:org/repo.js'' @ [CHR 0x0A]"
           and p = "''git@github.com:org/repo''" and q = "''js''" and ext = "[]"
           and u = "''git@github.com:org/repo.git''" and g = "''org/repo''"]
  from t b c have 1: "repo_search (strip (''git@github.com:org/repo.js'' @ [CHR 0x0A])) = None"
    by blast
  from t a 1 have 2: "\<not> fst (get_repo_name env_dotted (init_tester ''main''))"
    by blast
  from t d have 3: "\<exists>pre t. ''git@github.com:org/repo.git'' = pre @ ''org/repo'' @ t \<and> opt_git_end t"
    by blast
  from a b 1 2 3 d show ?thesis by blast
qed

text \<open>
  For a remote given as an HTTPS URL the first match starts at the second slash of
  \<^verbatim>\<open>https://\<close>, so group 1 holds the host as well.
\<close>

lemma https_remote_keeps_host:
  "repo_search ''https://github.com/org/repo.git'' = Some ''github.com/org/repo''"
  by code_simp

end
